theory Spec2Isabelle
  imports Main "HOL-Library.Log_Nat"
begin

section \<open>JavaScript values and the ambient operations\<close>

text \<open>
  The client of \<^verbatim>\<open>src/src/main.ts\<close> works on untyped JavaScript values: parsed wire
  frames, request payloads, the subscription cursor. A value is modelled as it is
  at run time. A finite number is the rational it denotes; an object is the list
  of its own properties in insertion order (a parser yields every name once; of
  a repeated name the first entry is the one read).
\<close>

datatype jsval =
    JUndefined
  | JNull
  | JBool bool
  | JNum rat
  | JStr string
  | JArr "jsval list"
  | JObj "(string \<times> jsval) list"

text \<open>
  \<^verbatim>\<open>if (v)\<close>: \<^verbatim>\<open>undefined\<close>, \<^verbatim>\<open>null\<close>, \<^verbatim>\<open>false\<close>, \<^verbatim>\<open>0\<close> and the empty string are
  falsy, every other value is truthy.
\<close>

fun truthy :: "jsval \<Rightarrow> bool" where
  "truthy JUndefined = False"
| "truthy JNull = False"
| "truthy (JBool b) = b"
| "truthy (JNum n) = (n \<noteq> 0)"
| "truthy (JStr s) = (s \<noteq> [])"
| "truthy (JArr xs) = True"
| "truthy (JObj kvs) = True"

text \<open>
  \<^verbatim>\<open>json.k\<close> for the names the client reads (\<^verbatim>\<open>pub\<close>, \<^verbatim>\<open>cMsgId\<close>, \<^verbatim>\<open>sMsgId\<close>,
  \<^verbatim>\<open>sequence\<close>): an object yields its own property or \<^verbatim>\<open>undefined\<close>; a boolean,
  number, string or array has no property of these names. Reading a property of
  \<^verbatim>\<open>null\<close> or \<^verbatim>\<open>undefined\<close> throws; the callers below branch on that case before
  they use \<open>getProp\<close>.
\<close>

fun getProp :: "jsval \<Rightarrow> string \<Rightarrow> jsval" where
  "getProp (JObj kvs) k = (case map_of kvs k of None \<Rightarrow> JUndefined | Some v \<Rightarrow> v)"
| "getProp v k = JUndefined"

text \<open>\<^verbatim>\<open>delete json.k\<close>.\<close>

fun deleteProp :: "jsval \<Rightarrow> string \<Rightarrow> jsval" where
  "deleteProp (JObj kvs) k = JObj (filter (\<lambda>kv. fst kv \<noteq> k) kvs)"
| "deleteProp v k = v"

text \<open>
  The operations of the JavaScript runtime that the client calls and that are not
  part of the repository are parameters of the model:
  \<^item> \<open>JSON_parse\<close> is \<^verbatim>\<open>JSON.parse\<close>; \<open>None\<close> stands for the \<^verbatim>\<open>SyntaxError\<close> it
    throws on a text that is not JSON;
  \<^item> \<open>JSON_stringify\<close> is \<^verbatim>\<open>JSON.stringify\<close>;
  \<^item> \<open>ToPropertyKey\<close> is the conversion of a value to the property name under
    which \<^verbatim>\<open>obj[v]\<close> is stored and found.
\<close>

record builtins =
  JSON_parse :: "string \<Rightarrow> jsval option"
  JSON_stringify :: "jsval \<Rightarrow> string"
  ToPropertyKey :: "jsval \<Rightarrow> string"

text \<open>
  Numbers are IEEE 754 binary64 values, so \<^verbatim>\<open>++x\<close> is \<open>x + 1\<close> rounded to 53
  significant bits, ties to even. \<open>ulp q\<close> is the spacing of binary64 values in
  the binade of \<open>q \<ge> 1\<close>. The counter the client increments is never negative, so
  the sum is at least 1; below 1 (never reached) the sum is left unrounded.
\<close>

definition ulp :: "rat \<Rightarrow> rat" where
  "ulp q = (let e = int (floorlog 2 (nat \<lfloor>q\<rfloor>)) - 1
            in if 52 \<le> e then 2 ^ nat (e - 52) else 1 / 2 ^ nat (52 - e))"

definition round_even :: "rat \<Rightarrow> int" where
  "round_even k = (let f = \<lfloor>k\<rfloor>; r = k - of_int f
                   in if r < 1 / 2 then f
                      else if 1 / 2 < r then f + 1
                      else if even f then f else f + 1)"

definition binary64 :: "rat \<Rightarrow> rat" where
  "binary64 q = (if q < 1 then q else ulp q * of_int (round_even (q / ulp q)))"

definition incr :: "rat \<Rightarrow> rat" where
  "incr x = binary64 (x + 1)"

section \<open>The session\<close>

datatype error = Error string | SyntaxError | TypeError

text \<open>
  An entry of \<^verbatim>\<open>waitingOperations\<close>:
  \<^verbatim>\<open>{ resolveMe: resolve, data: msg, cMsgId: this.cMsgId, clientId: this.clientId }\<close>.
  \<^verbatim>\<open>resolveMe\<close> is the resolver of the promise that \<^verbatim>\<open>publish\<close> returned for this
  entry; it is identified with the entry.
\<close>

datatype pending = Pending (op_data: jsval) (op_cMsgId: rat) (op_clientId: rat)

text \<open>
  The fields of \<^verbatim>\<open>DurableStreamClient\<close>. \<open>ws\<close> is the index of the socket object
  currently held: the constructor creates socket 0 and every later
  \<^verbatim>\<open>new WebSocket\<close> creates the next one. \<open>listener\<close> is \<open>None\<close> for the empty
  holder \<^verbatim>\<open>{}\<close> and \<open>Some h\<close> for \<^verbatim>\<open>{doHandle: h}\<close>, where \<open>h\<close> is the handler
  function the application passed to \<^verbatim>\<open>subscribe\<close>.

  \<open>unsubscribing\<close> is not a field of the class. A call of \<^verbatim>\<open>unsubscribe\<close> that has
  sent its request is suspended at \<^verbatim>\<open>await this.publish(...)\<close> until the promise of
  that request is fulfilled; the runtime keeps this suspended call, and
  \<open>unsubscribing\<close> lists the pending entries whose promise such a call awaits.
\<close>

record 'h session =
  ws :: nat
  waitingOperations :: "string \<rightharpoonup> pending"
  cMsgId :: rat
  clientId :: rat
  listener :: "'h option"
  wsUrl :: string
  isConnected :: bool
  reconnects :: int
  r2Url :: string
  apiKey :: string
  lastSequence :: jsval
  host :: string
  unsubscribing :: "pending list"

text \<open>
  What a step of the client does to the outside:
  \<^item> \<open>Send w t\<close>: \<^verbatim>\<open>this.ws.send(t)\<close> on socket \<open>w\<close>;
  \<^item> \<open>Deliver h f\<close>: the handler \<open>h\<close> is called with the frame \<open>f\<close> and an
    acknowledgment closure bound to \<open>f\<close> (the function \<open>ack\<close> below is its body);
  \<^item> \<open>Resolve p f\<close>: \<^verbatim>\<open>resolveMe(f)\<close> of the pending entry \<open>p\<close>;
  \<^item> \<open>Listen w\<close>: the \<^verbatim>\<open>close\<close>, \<^verbatim>\<open>error\<close> and \<^verbatim>\<open>message\<close> listeners of
    \<^verbatim>\<open>setupListeners\<close> are added to socket \<open>w\<close>.
  Calls of \<^verbatim>\<open>console.log\<close> are left out.
\<close>

datatype 'h effect =
    Send nat string
  | Deliver 'h jsval
  | Resolve pending jsval
  | Listen nat

record config =
  obj_host :: string
  obj_secure :: bool
  obj_apiKey :: string
  obj_subject :: string

text \<open>
  The constructor. \<open>rand\<close> is the value of \<^verbatim>\<open>Math.random()\<close>, a number with
  \<open>0 \<le> rand < 1\<close>.
\<close>

definition constructor :: "config \<Rightarrow> rat \<Rightarrow> error + 'h session" where
  "constructor obj rand =
     (if obj_apiKey obj = [] then Inl (Error ''No apiKey exists'')
      else Inr \<lparr>
        ws = 0,
        waitingOperations = Map.empty,
        cMsgId = rand,
        clientId = rand,
        listener = None,
        wsUrl = (if obj_secure obj then ''wss'' else ''ws'') @ ''://'' @ obj_host obj
                  @ ''/stream/'' @ obj_subject obj @ ''?apiKey='' @ obj_apiKey obj,
        isConnected = False,
        reconnects = - 1,
        r2Url = (if obj_secure obj then ''https'' else ''http'') @ ''://'' @ obj_host obj
                  @ ''/r2'',
        apiKey = obj_apiKey obj,
        lastSequence = JNum 0,
        host = obj_host obj,
        unsubscribing = [] \<rparr>)"

section \<open>Sending requests\<close>

text \<open>
  \<^verbatim>\<open>canSend\<close> polls \<^verbatim>\<open>this.isConnected\<close>, sleeping 500 ms between two reads. Other
  tasks run during a sleep, so the value read can change: \<open>conn k\<close> is the value
  of \<^verbatim>\<open>this.isConnected\<close> at the read that follows \<open>k\<close> sleeps. \<open>canSend_tries\<close> is
  the loop and yields the final value of \<^verbatim>\<open>tries\<close>.
\<close>

function canSend_tries :: "(nat \<Rightarrow> bool) \<Rightarrow> nat \<Rightarrow> nat" where
  "canSend_tries conn tries =
     (if \<not> conn tries
      then (if 20 < tries + 1 then tries + 1 else canSend_tries conn (tries + 1))
      else tries)"
  by pat_completeness auto
termination
  by (relation "measure (\<lambda>(conn, tries). 21 - tries)") auto

definition canSend :: "(nat \<Rightarrow> bool) \<Rightarrow> bool" where
  "canSend conn = (canSend_tries conn 0 < 20)"

text \<open>
  The result of an asynchronous operation: \<open>Returned v\<close> when its promise is
  fulfilled with \<open>v\<close> without waiting for the server; \<open>AwaitFrame k\<close> when the
  promise is fulfilled with the response frame once the pending entry under the
  key \<open>k\<close> is resolved; \<open>AwaitVoid k\<close> when the operation continues after that
  response and then returns \<^verbatim>\<open>undefined\<close>.
\<close>

datatype outcome = Returned jsval | AwaitFrame string | AwaitVoid string

definition soft_error :: jsval where
  "soft_error = JObj [(''error'', JStr ''Could not send message'')]"

text \<open>
  The executor of the promise in \<^verbatim>\<open>publish\<close>: take the next request id, register
  the pending entry, send the request.
\<close>

definition publish_send :: "builtins \<Rightarrow> 'h session \<Rightarrow> jsval \<Rightarrow> outcome \<times> 'h session \<times> 'h effect list" where
  "publish_send B s msg =
     (let c = incr (cMsgId s);
          k = ToPropertyKey B (JNum c);
          s1 = s\<lparr> cMsgId := c \<rparr>;
          s2 = s1\<lparr> waitingOperations := (waitingOperations s1)(k \<mapsto> Pending msg c (clientId s1)) \<rparr>
      in (AwaitFrame k, s2,
          [Send (ws s2) (JSON_stringify B
             (JObj [(''data'', msg), (''cMsgId'', JNum c), (''clientId'', JNum (clientId s2))]))]))"

text \<open>
  \<^verbatim>\<open>publish\<close>. \<open>s\<close> is the session when \<^verbatim>\<open>canSend\<close> returns; when the session is
  connected at the call, \<^verbatim>\<open>canSend\<close> returns without a sleep and the whole of
  \<^verbatim>\<open>publish\<close> runs before any other task. (No task runs between the read that
  finds the session connected and the executor, so \<open>isConnected s\<close> holds
  whenever \<open>canSend conn\<close> does; the model does not need this.)
\<close>

definition publish :: "builtins \<Rightarrow> (nat \<Rightarrow> bool) \<Rightarrow> 'h session \<Rightarrow> jsval \<Rightarrow> outcome \<times> 'h session \<times> 'h effect list" where
  "publish B conn s msg =
     (if \<not> canSend conn then (Returned soft_error, s, [])
      else publish_send B s msg)"

text \<open>
  The operations derived from \<^verbatim>\<open>publish\<close>. The TypeScript parameter types are
  erased at run time (\<^verbatim>\<open>init\<close> passes \<^verbatim>\<open>this.lastSequence\<close>, which holds whatever
  \<^verbatim>\<open>json.sequence\<close> was), so the arguments are JavaScript values.
  \<open>discard\<close> is \<^verbatim>\<open>await p\<close> whose value is not used: the operation returns
  \<^verbatim>\<open>undefined\<close> once \<open>p\<close> is fulfilled.
\<close>

fun discard :: "outcome \<Rightarrow> outcome" where
  "discard (Returned v) = Returned JUndefined"
| "discard (AwaitFrame k) = AwaitVoid k"
| "discard (AwaitVoid k) = AwaitVoid k"

definition info :: "builtins \<Rightarrow> (nat \<Rightarrow> bool) \<Rightarrow> 'h session \<Rightarrow> outcome \<times> 'h session \<times> 'h effect list" where
  "info B conn s = publish B conn s (JObj [(''cmd'', JStr ''getStreamInfo'')])"

text \<open>
  \<^verbatim>\<open>subscribe\<close> does not await its \<^verbatim>\<open>publish\<close>: it stores the cursor and the handler
  and returns. The two assignments and the request touch different fields.
\<close>

definition subscribe :: "builtins \<Rightarrow> (nat \<Rightarrow> bool) \<Rightarrow> 'h session \<Rightarrow> jsval \<Rightarrow> 'h \<Rightarrow> outcome \<times> 'h session \<times> 'h effect list" where
  "subscribe B conn s startSequence doHandle =
     (case publish B conn s (JObj [(''cmd'', JStr ''subscribe''), (''startSequence'', startSequence)]) of
        (r, s1, out) \<Rightarrow>
          (Returned JUndefined, s1\<lparr> lastSequence := startSequence, listener := Some doHandle \<rparr>, out))"

text \<open>
  \<^verbatim>\<open>unsubscribe\<close> awaits its \<^verbatim>\<open>publish\<close> and then empties the listener holder:
  \<open>unsubscribe_resume\<close> is the code after the \<^verbatim>\<open>await\<close>. When \<^verbatim>\<open>publish\<close> returns the
  soft error, that code runs as soon as \<^verbatim>\<open>publish\<close> has returned, that is, at the
  end of the bounded wait. When the request was sent, the call stays
  suspended until the promise of the entry just registered is fulfilled
  (\<open>suspend_unsubscribe\<close> records the entry); the code after the \<^verbatim>\<open>await\<close> then runs
  right after the message listener that resolved the entry (\<open>resume_awaiting\<close>,
  applied to what that listener did).
\<close>

definition unsubscribe_resume :: "'h session \<Rightarrow> 'h session" where
  "unsubscribe_resume s = s\<lparr> listener := None \<rparr>"

definition suspend_unsubscribe :: "string \<Rightarrow> 'h session \<Rightarrow> 'h session" where
  "suspend_unsubscribe k s =
     (case waitingOperations s k of
        None \<Rightarrow> s
      | Some p \<Rightarrow> s\<lparr> unsubscribing := p # unsubscribing s \<rparr>)"

definition unsubscribe :: "builtins \<Rightarrow> (nat \<Rightarrow> bool) \<Rightarrow> 'h session \<Rightarrow> outcome \<times> 'h session \<times> 'h effect list" where
  "unsubscribe B conn s =
     (case publish B conn s (JObj [(''cmd'', JStr ''unsubscribe'')]) of
        (Returned v, s1, out) \<Rightarrow> (Returned JUndefined, unsubscribe_resume s1, out)
      | (AwaitFrame k, s1, out) \<Rightarrow> (AwaitVoid k, suspend_unsubscribe k s1, out)
      | (AwaitVoid k, s1, out) \<Rightarrow> (AwaitVoid k, s1, out))"

fun resume_awaiting :: "'h session \<Rightarrow> 'h effect list \<Rightarrow> 'h session" where
  "resume_awaiting s [] = s"
| "resume_awaiting s (Resolve p json # es) =
     resume_awaiting
       (if p \<in> set (unsubscribing s)
        then (unsubscribe_resume s)\<lparr> unsubscribing := remove1 p (unsubscribing s) \<rparr>
        else s) es"
| "resume_awaiting s (e # es) = resume_awaiting s es"

definition deleteMessages :: "builtins \<Rightarrow> (nat \<Rightarrow> bool) \<Rightarrow> 'h session \<Rightarrow> jsval \<Rightarrow> outcome \<times> 'h session \<times> 'h effect list" where
  "deleteMessages B conn s sequence =
     (case publish B conn s (JObj [(''cmd'', JStr ''deleteMessages''), (''sequence'', sequence)]) of
        (r, s1, out) \<Rightarrow> (discard r, s1, out))"

definition getState :: "builtins \<Rightarrow> (nat \<Rightarrow> bool) \<Rightarrow> 'h session \<Rightarrow> outcome \<times> 'h session \<times> 'h effect list" where
  "getState B conn s = publish B conn s (JObj [(''cmd'', JStr ''getState'')])"

definition putState :: "builtins \<Rightarrow> (nat \<Rightarrow> bool) \<Rightarrow> 'h session \<Rightarrow> jsval \<Rightarrow> outcome \<times> 'h session \<times> 'h effect list" where
  "putState B conn s state = publish B conn s (JObj [(''cmd'', JStr ''putState''), (''state'', state)])"

section \<open>Inbound messages\<close>

text \<open>
  The \<^verbatim>\<open>message\<close> listener of \<^verbatim>\<open>setupListeners\<close>, applied to \<^verbatim>\<open>msg.data\<close>. It is an
  \<^verbatim>\<open>async\<close> function without \<^verbatim>\<open>try\<close>: an exception thrown in its body leaves it as
  the rejection of its promise. The first component of the result is that
  exception, or \<open>None\<close> when the body runs to a \<^verbatim>\<open>return\<close> or to its end.

  \<^verbatim>\<open>null.pub\<close> throws a \<^verbatim>\<open>TypeError\<close>; so does the call of \<^verbatim>\<open>this.listener.doHandle\<close>
  when the holder is empty, and so does
  \<^verbatim>\<open>this.waitingOperations[json.cMsgId].resolveMe(json)\<close> when no entry is stored
  under the key (a name inherited from \<^verbatim>\<open>Object.prototype\<close> yields a value without
  \<^verbatim>\<open>resolveMe\<close>, and the call throws a \<^verbatim>\<open>TypeError\<close> as well).
\<close>

definition on_message :: "builtins \<Rightarrow> 'h session \<Rightarrow> string \<Rightarrow> error option \<times> 'h session \<times> 'h effect list" where
  "on_message B s data =
     (case JSON_parse B data of
        None \<Rightarrow> (Some SyntaxError, s, [])
      | Some json \<Rightarrow>
          if json = JNull \<or> json = JUndefined then (Some TypeError, s, [])
          else if truthy (getProp json ''pub'') then
            (case listener s of
               None \<Rightarrow> (Some TypeError, s, [])
             | Some doHandle \<Rightarrow> (None, s, [Deliver doHandle (deleteProp json ''pub'')]))
          else if truthy (getProp json ''cMsgId'') then
            (let k = ToPropertyKey B (getProp json ''cMsgId'')
             in case waitingOperations s k of
                  None \<Rightarrow> (Some TypeError, s, [])
                | Some p \<Rightarrow>
                    (None, s\<lparr> waitingOperations := (waitingOperations s)(k := None) \<rparr>,
                     [Resolve p json]))
          else if truthy (getProp json ''sMsgId'') then
            (None, s, [Send (ws s) (JSON_stringify B json)])
          else (None, s, []))"

text \<open>
  The acknowledgment closure handed to the handler with the frame \<open>json\<close>:
  \<^verbatim>\<open>async () => { this.lastSequence = json.sequence; this.ws.send(JSON.stringify(json)) }\<close>.
  The handler may call it at any later time, any number of times.
\<close>

definition ack :: "builtins \<Rightarrow> 'h session \<Rightarrow> jsval \<Rightarrow> 'h session \<times> 'h effect list" where
  "ack B s json =
     (s\<lparr> lastSequence := getProp json ''sequence'' \<rparr>, [Send (ws s) (JSON_stringify B json)])"

section \<open>Connecting\<close>

datatype ready_state = CONNECTING | OPEN | CLOSING | CLOSED

text \<open>
  \<^verbatim>\<open>init\<close> suspends at two places: the 1000 ms delay after it has seen the socket
  open (\<open>Settle\<close>) and the 500 ms delay before the next look (\<open>Retry\<close>). The code
  between two suspensions runs without interruption.

  \<open>init_poll r s\<close> is one pass through the loop body up to the suspension, \<open>r\<close>
  being \<^verbatim>\<open>this.ws.readyState\<close> at its start. A closed or closing socket is
  replaced, and the new socket is \<^verbatim>\<open>CONNECTING\<close>: a pass that does not see \<^verbatim>\<open>OPEN\<close>
  always reaches the 500 ms delay.
\<close>

datatype init_wait = Settle | Retry

definition init_poll :: "ready_state \<Rightarrow> 'h session \<Rightarrow> init_wait \<times> 'h session" where
  "init_poll r s =
     (let s1 = s\<lparr> isConnected := False \<rparr>
      in if r = OPEN then (Settle, s1)
         else if r = CLOSED \<or> r = CLOSING then (Retry, s1\<lparr> ws := Suc (ws s1) \<rparr>)
         else (Retry, s1))"

definition setupListeners :: "'h session \<Rightarrow> 'h effect list" where
  "setupListeners s = [Listen (ws s)]"

text \<open>
  \<open>init_connected\<close> is the rest of \<^verbatim>\<open>init\<close> after the 1000 ms delay: count the
  connection, mark the session connected, subscribe again when a handler is
  stored, leave the loop and set up the listeners. The session is connected when
  the inner \<^verbatim>\<open>publish\<close> asks \<^verbatim>\<open>canSend\<close>, so its request is sent in this same task,
  after the listeners were added.
\<close>

definition init_connected :: "builtins \<Rightarrow> 'h session \<Rightarrow> 'h session \<times> 'h effect list" where
  "init_connected B s =
     (let s1 = s\<lparr> reconnects := reconnects s + 1, isConnected := True \<rparr>
      in case listener s1 of
           None \<Rightarrow> (s1, setupListeners s1)
         | Some doHandle \<Rightarrow>
             (case subscribe B (\<lambda>k. isConnected s1) s1 (lastSequence s1) doHandle of
                (r, s2, out) \<Rightarrow> (s2, setupListeners s2 @ out)))"

text \<open>
  A run of \<^verbatim>\<open>init\<close> with nothing else running in between. The list holds the
  values of \<^verbatim>\<open>this.ws.readyState\<close> at the successive passes; \<open>None\<close> means that the
  loop is still polling when the observations end. The loop has no exit but
  \<^verbatim>\<open>OPEN\<close>.
\<close>

fun init :: "builtins \<Rightarrow> ready_state list \<Rightarrow> 'h session \<Rightarrow> ('h session \<times> 'h effect list) option" where
  "init B [] s = None"
| "init B (r # rs) s =
     (case init_poll r s of
        (Settle, s1) \<Rightarrow> Some (init_connected B s1)
      | (Retry, s1) \<Rightarrow> init B rs s1)"

section \<open>Runs of a session\<close>

text \<open>
  What can happen to a session, one uninterrupted piece of code at a time: a call
  of the public interface (with the connectivity its \<^verbatim>\<open>canSend\<close> reads), a
  \<^verbatim>\<open>message\<close> event (the listener, followed by the suspended calls of
  \<^verbatim>\<open>unsubscribe\<close> whose request it resolved), a call of an acknowledgment closure by
  the handler, a pass of \<^verbatim>\<open>init\<close> and its completion.
\<close>

datatype 'h call =
    Publish "nat \<Rightarrow> bool" jsval
  | Info "nat \<Rightarrow> bool"
  | Subscribe "nat \<Rightarrow> bool" jsval 'h
  | Unsubscribe "nat \<Rightarrow> bool"
  | DeleteMessages "nat \<Rightarrow> bool" jsval
  | GetState "nat \<Rightarrow> bool"
  | PutState "nat \<Rightarrow> bool" jsval
  | Message string
  | Ack jsval
  | InitPoll ready_state
  | InitConnected

fun perform :: "builtins \<Rightarrow> 'h session \<Rightarrow> 'h call \<Rightarrow> 'h session \<times> 'h effect list" where
  "perform B s (Publish conn msg) = snd (publish B conn s msg)"
| "perform B s (Info conn) = snd (info B conn s)"
| "perform B s (Subscribe conn startSequence doHandle) = snd (subscribe B conn s startSequence doHandle)"
| "perform B s (Unsubscribe conn) = snd (unsubscribe B conn s)"
| "perform B s (DeleteMessages conn sequence) = snd (deleteMessages B conn s sequence)"
| "perform B s (GetState conn) = snd (getState B conn s)"
| "perform B s (PutState conn state) = snd (putState B conn s state)"
| "perform B s (Message data) =
     (case on_message B s data of (e, s1, out) \<Rightarrow> (resume_awaiting s1 out, out))"
| "perform B s (Ack json) = ack B s json"
| "perform B s (InitPoll r) = (snd (init_poll r s), [])"
| "perform B s InitConnected = init_connected B s"

fun run :: "builtins \<Rightarrow> 'h session \<Rightarrow> 'h call list \<Rightarrow> 'h session" where
  "run B s [] = s"
| "run B s (c # cs) = run B (fst (perform B s c)) cs"

text \<open>
  The calls that assign \<^verbatim>\<open>this.lastSequence\<close>: the acknowledgment closure
  (main.ts:104) and \<^verbatim>\<open>subscribe\<close> (main.ts:158).
\<close>

fun writes_cursor :: "'h call \<Rightarrow> bool" where
  "writes_cursor (Ack json) = True"
| "writes_cursor (Subscribe conn startSequence doHandle) = True"
| "writes_cursor c = False"

section \<open>The session on the event loop\<close>

text \<open>
  \<^verbatim>\<open>setupListeners\<close> adds a new \<^verbatim>\<open>closeHandler\<close> closure to the \<^verbatim>\<open>close\<close> and to the
  \<^verbatim>\<open>error\<close> event of the current socket, and \<^verbatim>\<open>closeHandler\<close> calls \<^verbatim>\<open>init\<close>. Several
  calls of \<^verbatim>\<open>init\<close> can therefore be suspended at the same time. The world of a
  session holds the session, the \<^verbatim>\<open>readyState\<close> of every socket it has created,
  everything it has done to the outside so far, and the suspended calls of
  \<^verbatim>\<open>init\<close>, each at its delay.
\<close>

record 'h world =
  client :: "'h session"
  readyState :: "nat \<Rightarrow> ready_state"
  effects :: "'h effect list"
  inits :: "init_wait list"

text \<open>
  The events: the application calls \<^verbatim>\<open>init\<close>; the transport moves a socket to a
  new \<^verbatim>\<open>readyState\<close>; the runtime dispatches the \<^verbatim>\<open>error\<close> or the \<^verbatim>\<open>close\<close> event of
  a socket; the delay of the \<open>i\<close>-th suspended \<^verbatim>\<open>init\<close> ends.
\<close>

datatype event =
    CallInit
  | Transport nat ready_state
  | ErrorEvent nat
  | CloseEvent nat
  | Timer nat

definition world0 :: "'h session \<Rightarrow> 'h world" where
  "world0 s = \<lparr> client = s, readyState = (\<lambda>w. CONNECTING), effects = [], inits = [] \<rparr>"

text \<open>The number of \<^verbatim>\<open>closeHandler\<close> closures added to socket \<open>h\<close> so far.\<close>

definition closeHandlers :: "'h world \<Rightarrow> nat \<Rightarrow> nat" where
  "closeHandlers w h = length (filter (\<lambda>e. e = Listen h) (effects w))"

text \<open>
  A pass of \<^verbatim>\<open>init\<close> in the world: it reads the state of the current socket, and a
  socket it creates starts as \<^verbatim>\<open>CONNECTING\<close>.
\<close>

definition poll_world :: "'h world \<Rightarrow> init_wait \<times> 'h world" where
  "poll_world w =
     (case init_poll (readyState w (ws (client w))) (client w) of
        (d, s1) \<Rightarrow>
          (d, w\<lparr> client := s1,
                 readyState := (if ws s1 = ws (client w) then readyState w
                                else (readyState w)(ws s1 := CONNECTING)) \<rparr>))"

text \<open>A call of \<^verbatim>\<open>init\<close> runs up to its first delay and stays suspended there.\<close>

definition start_init :: "'h world \<Rightarrow> 'h world" where
  "start_init w = (case poll_world w of (d, w1) \<Rightarrow> w1\<lparr> inits := inits w1 @ [d] \<rparr>)"

text \<open>
  The end of the delay of the \<open>i\<close>-th suspended call: after the 500 ms delay the
  loop makes its next pass; after the 1000 ms delay the call completes.
\<close>

definition resume_init :: "builtins \<Rightarrow> nat \<Rightarrow> 'h world \<Rightarrow> 'h world" where
  "resume_init B i w =
     (if length (inits w) \<le> i then w
      else case inits w ! i of
             Retry \<Rightarrow> (case poll_world w of (d, w1) \<Rightarrow> w1\<lparr> inits := (inits w1)[i := d] \<rparr>)
           | Settle \<Rightarrow>
               (case init_connected B (client w) of
                  (s1, out) \<Rightarrow>
                    w\<lparr> client := s1, effects := effects w @ out,
                       inits := take i (inits w) @ drop (Suc i) (inits w) \<rparr>))"

text \<open>
  The dispatch of \<^verbatim>\<open>close\<close> or of \<^verbatim>\<open>error\<close> on socket \<open>h\<close> calls every \<^verbatim>\<open>closeHandler\<close>
  added to that socket, one after the other.
\<close>

definition dispatch_close :: "nat \<Rightarrow> 'h world \<Rightarrow> 'h world" where
  "dispatch_close h w = (start_init ^^ closeHandlers w h) w"

fun react :: "builtins \<Rightarrow> 'h world \<Rightarrow> event \<Rightarrow> 'h world" where
  "react B w CallInit = start_init w"
| "react B w (Transport h r) = w\<lparr> readyState := (readyState w)(h := r) \<rparr>"
| "react B w (ErrorEvent h) = dispatch_close h w"
| "react B w (CloseEvent h) = dispatch_close h w"
| "react B w (Timer i) = resume_init B i w"

fun play :: "builtins \<Rightarrow> 'h world \<Rightarrow> event list \<Rightarrow> 'h world" where
  "play B w [] = w"
| "play B w (e # es) = play B (react B w e) es"

section \<open>Concrete inputs\<close>

text \<open>
  A configuration, a handful of wire texts with the frames they parse to, and
  stand-ins for the ambient operations, for the evaluations below. Every text
  outside the table is not JSON. The property keys are those of the request ids
  1.5 and 2.5.
\<close>

definition cfg0 :: config where
  "cfg0 = \<lparr> obj_host = ''example.org'', obj_secure = True, obj_apiKey = ''key'',
            obj_subject = ''news'' \<rparr>"

definition wire0 :: "(string \<times> jsval) list" where
  "wire0 =
     [(''delivery5'', JObj [(''pub'', JBool True), (''sequence'', JNum 5), (''payload'', JStr ''x'')]),
      (''delivery3'', JObj [(''pub'', JBool True), (''sequence'', JNum 3), (''payload'', JStr ''y'')]),
      (''response'', JObj [(''cMsgId'', JNum (3 / 2)), (''ok'', JBool True)]),
      (''request'', JObj [(''sMsgId'', JNum 1)]),
      (''other'', JObj [(''hello'', JNum 1)]),
      (''response2'', JObj [(''cMsgId'', JNum (5 / 2)), (''ok'', JBool True)])]"

definition keys0 :: "(jsval \<times> string) list" where
  "keys0 = [(JNum (3 / 2), ''1.5''), (JNum (5 / 2), ''2.5'')]"

definition B0 :: builtins where
  "B0 = \<lparr> JSON_parse = map_of wire0,
          JSON_stringify = (\<lambda>v. ''frame''),
          ToPropertyKey = (\<lambda>v. case map_of keys0 v of Some k \<Rightarrow> k | None \<Rightarrow> ''other'') \<rparr>"

text \<open>
  The session right after construction, with \<^verbatim>\<open>Math.random()\<close> = 0.5; the session
  once connected; the connected session after one \<^verbatim>\<open>publish\<close>; the connected
  session after \<^verbatim>\<open>subscribe(0, handler)\<close>.
\<close>

definition s0 :: "string session" where
  "s0 = projr (constructor cfg0 (1 / 2))"

definition s_open :: "string session" where
  "s_open = run B0 s0 [InitPoll OPEN, InitConnected]"

definition s_pub :: "string session" where
  "s_pub = run B0 s_open [Publish (\<lambda>k. True) (JStr ''hello'')]"

definition s_sub :: "string session" where
  "s_sub = run B0 s_open [Subscribe (\<lambda>k. True) (JNum 0) ''handler'']"

section \<open>Auxiliary facts\<close>

subsection \<open>The bounded wait\<close>

lemma canSend_tries_lt: "tries \<le> 20 \<Longrightarrow> (canSend_tries conn tries < 20) = (\<exists>k. tries \<le> k \<and> k < 20 \<and> conn k)"
proof (induction conn tries rule: canSend_tries.induct)
  case (1 conn tries)
  show ?case
  proof (cases "conn tries")
    case True
    then show ?thesis using 1 by (subst canSend_tries.simps) auto
  next
    case False
    show ?thesis
    proof (cases "20 < tries + 1")
      case True
      with False show ?thesis  by (subst canSend_tries.simps) auto
    next
      case F2: False
      have "(canSend_tries conn (tries+1) < 20) = (\<exists>k\<ge>tries + 1. k < 20 \<and> conn k)"
        using 1 False F2 by auto
      moreover have "(\<exists>k\<ge>tries + 1. k < 20 \<and> conn k) = (\<exists>k. tries \<le> k \<and> k < 20 \<and> conn k)"
        using False  by (metis Suc_eq_plus1 Suc_leD Suc_leI le_neq_implies_less)
      ultimately show ?thesis using False F2 by (subst canSend_tries.simps) auto
    qed
  qed
qed

lemma canSend_iff: "canSend conn = (\<exists>k<20. conn k)"
  unfolding canSend_def using canSend_tries_lt[of 0 conn] by auto

subsection \<open>Incrementing a binary64 number\<close>

lemma round_even_ge: "k - 1 / 2 \<le> of_int (round_even k)"
  unfolding round_even_def Let_def by (auto; linarith)

lemma round_even_floor: "\<lfloor>k\<rfloor> \<le> round_even k"
  unfolding round_even_def Let_def by auto

lemma ulp_pos: "0 < ulp q"
  unfolding ulp_def Let_def by auto

lemma ulp_le_1:
  assumes "q < 2 ^ 53"
  shows "ulp q \<le> 1"
proof -
  have "\<lfloor>q\<rfloor> < 2 ^ 53" using assms by (simp add: floor_less_iff)
  then have "nat \<lfloor>q\<rfloor> < 2 ^ 53" by (cases "0 \<le> \<lfloor>q\<rfloor>") (simp_all add: nat_less_iff)
  then have "floorlog 2 (nat \<lfloor>q\<rfloor>) \<le> 53" by (intro floorlog_leI) auto
  then have e: "int (floorlog 2 (nat \<lfloor>q\<rfloor>)) - 1 \<le> 52" by simp
  show ?thesis
  proof (cases "int (floorlog 2 (nat \<lfloor>q\<rfloor>)) - 1 = 52")
    case True
    then show ?thesis by (simp add: ulp_def Let_def)
  next
    case False
    with e have "\<not> 52 \<le> int (floorlog 2 (nat \<lfloor>q\<rfloor>)) - 1" by simp
    then have "ulp q = 1 / 2 ^ nat (52 - (int (floorlog 2 (nat \<lfloor>q\<rfloor>)) - 1))"
      by (simp add: ulp_def Let_def)
    moreover have "(1::rat) \<le> 2 ^ nat (52 - (int (floorlog 2 (nat \<lfloor>q\<rfloor>)) - 1))"
      by (rule one_le_power) simp
    ultimately show ?thesis by (simp add: divide_le_eq_1)
  qed
qed

lemma binary64_ge:
  assumes "1 \<le> q" "q < 2 ^ 53"
  shows "q - 1 / 2 \<le> binary64 q"
proof -
  let ?u = "ulp q"
  have u: "0 < ?u" "?u \<le> 1" using ulp_pos ulp_le_1 assms by auto
  have "q / ?u - 1 / 2 \<le> of_int (round_even (q / ?u))" by (rule round_even_ge)
  then have "?u * (q / ?u - 1 / 2) \<le> ?u * of_int (round_even (q / ?u))"
    using u by (simp add: mult_le_cancel_left_pos)
  moreover have "?u * (q / ?u - 1 / 2) = q - ?u / 2" using u by (simp add: algebra_simps)
  moreover have "q - 1 / 2 \<le> q - ?u / 2" using u by simp
  ultimately show ?thesis using assms by (simp add: binary64_def)
qed

lemma binary64_big:
  assumes "2 ^ 53 \<le> q"
  shows "2 ^ 53 \<le> binary64 q"
proof -
  let ?n = "nat \<lfloor>q\<rfloor>"
  let ?l = "floorlog 2 ?n"
  have q1: "\<not> q < 1" using assms by (smt (verit) one_le_power le_less_trans not_less one_le_numeral order_trans)
  have "(2::int) ^ 53 \<le> \<lfloor>q\<rfloor>" using assms by (simp add: le_floor_iff)
  then have n: "2 ^ 53 \<le> ?n" by (simp add: le_nat_iff)
  then have l: "54 \<le> ?l" using floorlog_ge_SucI[of 2 53 ?n] by simp
  have npos: "0 < ?n" using n by (smt (verit) zero_less_power less_le_trans zero_less_numeral)
  have "2 ^ (?l - 1) \<le> ?n" using floorlog_bounds[of ?n 2] npos by simp
  then have "int (2 ^ (?l - 1)) \<le> \<lfloor>q\<rfloor>" using npos by linarith
  then have "of_int (int (2 ^ (?l - 1))) \<le> q" by (simp only: le_floor_iff)
  then have pq: "(2::rat) ^ (?l - 1) \<le> q" by simp
  have e: "52 \<le> int ?l - 1" using l by simp
  then have u: "ulp q = 2 ^ nat (int ?l - 1 - 52)" by (simp add: ulp_def Let_def)
  have ex: "nat (int ?l - 1 - 52) = ?l - 53" using l by simp
  have "?l - 1 = (?l - 53) + 52" using l by simp
  then have split: "(2::rat) ^ (?l - 1) = 2 ^ (?l - 53) * 2 ^ 52"
    by (simp only: power_add)
  have upos: "0 < ulp q" by (rule ulp_pos)
  have "(2::rat) ^ 52 \<le> q / ulp q"
    using pq split u ex upos by (simp add: le_divide_eq mult.commute)
  then have "(2::int) ^ 52 \<le> \<lfloor>q / ulp q\<rfloor>" by (simp add: le_floor_iff)
  then have "(2::int) ^ 52 \<le> round_even (q / ulp q)" using round_even_floor[of "q / ulp q"] by linarith
  then have "(2::rat) ^ 52 \<le> of_int (round_even (q / ulp q))"
    by (metis of_int_le_iff of_int_numeral of_int_power)
  then have A: "ulp q * 2 ^ 52 \<le> ulp q * of_int (round_even (q / ulp q))"
    using upos by (simp add: mult_le_cancel_left_pos)
  have B: "(2::rat) ^ 53 \<le> ulp q * 2 ^ 52"
  proof -
    have "(2::rat) ^ 53 = 2 ^ 1 * 2 ^ 52" by simp
    also have "\<dots> \<le> 2 ^ (?l - 53) * 2 ^ 52"
      using l by (intro mult_right_mono power_increasing) auto
    finally show ?thesis using u ex by simp
  qed
  have "(2::rat) ^ 53 \<le> ulp q * of_int (round_even (q / ulp q))"
    by (rule order_trans[OF B A])
  then show ?thesis using q1 by (simp only: binary64_def if_False)
qed

lemma incr_less:
  assumes "0 \<le> x" "incr x < 2 ^ 53"
  shows "x < incr x"
proof -
  have "x + 1 < 2 ^ 53"
  proof (rule ccontr)
    assume "\<not> x + 1 < 2 ^ 53"
    then have "2 ^ 53 \<le> binary64 (x + 1)" by (intro binary64_big) simp
    with assms show False by (simp add: incr_def)
  qed
  then have "x + 1 - 1 / 2 \<le> binary64 (x + 1)" using assms by (intro binary64_ge) auto
  then show ?thesis by (simp add: incr_def)
qed

lemma incr_nonneg: "0 \<le> x \<Longrightarrow> 0 \<le> incr x"
proof -
  assume x: "0 \<le> x"
  have "0 \<le> rat_of_int (round_even ((x + 1) / ulp (x + 1)))"
    using round_even_floor[of "(x + 1) / ulp (x + 1)"] ulp_pos[of "x + 1"] x
    by (smt (verit) divide_nonneg_pos of_int_0_le_iff zero_le_floor add_nonneg_nonneg zero_le_one order_trans)
  then show ?thesis using ulp_pos[of "x + 1"] x by (simp add: incr_def binary64_def)
qed

lemma incr_half: "incr (1 / 2) = 3 / 2"
  by (simp add: incr_def binary64_def ulp_def round_even_def Let_def floorlog_def)

lemma incr_three_halves: "incr (3 / 2) = 5 / 2"
proof -
  have "\<lfloor>5 / 2 :: rat\<rfloor> = 2" by (rule floor_unique) simp_all
  then have u: "ulp (5 / 2) = 1 / 2 ^ 51" by (simp add: ulp_def Let_def floorlog_def)
  show ?thesis by (simp add: incr_def binary64_def u round_even_def Let_def)
qed

subsection \<open>The operations, unfolded\<close>

lemmas op_defs = publish_def publish_send_def info_def subscribe_def unsubscribe_def
  unsubscribe_resume_def suspend_unsubscribe_def deleteMessages_def getState_def putState_def
  on_message_def ack_def init_poll_def init_connected_def setupListeners_def

lemmas world_defs = world0_def closeHandlers_def poll_world_def start_init_def resume_init_def
  dispatch_close_def

lemma canSend_connected: "conn 0 \<Longrightarrow> canSend conn"
  unfolding canSend_iff by (rule exI[of _ 0]) simp

lemma canSend_never: "\<not> canSend (\<lambda>k. False)"
  by (simp add: canSend_iff)

lemma s0_eq:
  "s0 = \<lparr> ws = 0, waitingOperations = Map.empty, cMsgId = 1 / 2, clientId = 1 / 2,
          listener = None, wsUrl = ''wss://example.org/stream/news?apiKey=key'',
          isConnected = False, reconnects = - 1, r2Url = ''https://example.org/r2'',
          apiKey = ''key'', lastSequence = JNum 0, host = ''example.org'',
          unsubscribing = [] \<rparr>"
  by (simp add: s0_def constructor_def cfg0_def)

lemma s_open_eq: "s_open = s0\<lparr> isConnected := True, reconnects := 0 \<rparr>"
  by (simp add: s_open_def op_defs s0_eq Let_def)

lemma s_pub_eq:
  "s_pub = s0\<lparr> isConnected := True, reconnects := 0, cMsgId := 3 / 2,
               waitingOperations := [''1.5'' \<mapsto> Pending (JStr ''hello'') (3 / 2) (1 / 2)] \<rparr>"
  by (simp add: s_pub_def s_open_eq op_defs s0_eq Let_def canSend_connected incr_half B0_def
      keys0_def)

lemma s_sub_eq:
  "s_sub = s0\<lparr> isConnected := True, reconnects := 0, cMsgId := 3 / 2,
               waitingOperations :=
                 [''1.5'' \<mapsto> Pending (JObj [(''cmd'', JStr ''subscribe''), (''startSequence'', JNum 0)])
                                (3 / 2) (1 / 2)],
               listener := Some ''handler'' \<rparr>"
  by (simp add: s_sub_def s_open_eq op_defs s0_eq Let_def canSend_connected incr_half B0_def
      keys0_def)

subsection \<open>The request counter along a run\<close>

lemma perform_counter:
  "cMsgId (fst (perform B s c)) = cMsgId s \<or> cMsgId (fst (perform B s c)) = incr (cMsgId s)"
  by (cases c) (auto simp: op_defs Let_def split: option.splits if_splits)

lemma perform_registers:
  assumes "waitingOperations (fst (perform B s c)) k = Some p"
    and "waitingOperations s k \<noteq> Some p"
  shows "op_cMsgId p = incr (cMsgId s) \<and> cMsgId (fst (perform B s c)) = incr (cMsgId s)"
  using assms
  by (cases c) (auto simp: op_defs Let_def split: option.splits if_splits)

lemma perform_counter_mono:
  assumes "0 \<le> cMsgId s" "cMsgId (fst (perform B s c)) < 2 ^ 53"
  shows "cMsgId s \<le> cMsgId (fst (perform B s c))"
  using perform_counter[of B s c] assms incr_less[of "cMsgId s"] by auto

lemma perform_counter_nonneg: "0 \<le> cMsgId s \<Longrightarrow> 0 \<le> cMsgId (fst (perform B s c))"
  using perform_counter[of B s c] incr_nonneg[of "cMsgId s"] by auto

lemma run_counter_nonneg: "0 \<le> cMsgId s \<Longrightarrow> 0 \<le> cMsgId (run B s cs)"
  by (induction cs arbitrary: s) (simp_all add: perform_counter_nonneg)

lemma run_counter_mono:
  "0 \<le> cMsgId s \<Longrightarrow> cMsgId (run B s cs) < 2 ^ 53 \<Longrightarrow> cMsgId s \<le> cMsgId (run B s cs)"
proof (induction cs arbitrary: s)
  case Nil
  then show ?case by simp
next
  case (Cons c cs)
  let ?s1 = "fst (perform B s c)"
  have nn: "0 \<le> cMsgId ?s1" using Cons.prems(1) by (rule perform_counter_nonneg)
  have a: "cMsgId ?s1 \<le> cMsgId (run B ?s1 cs)" using Cons.IH[OF nn] Cons.prems(2) by simp
  then have "cMsgId ?s1 < 2 ^ 53" using Cons.prems(2) by simp
  from perform_counter_mono[OF Cons.prems(1) this] a show ?case by simp
qed

subsection \<open>The cursor and the handler along a run\<close>

lemma resume_awaiting_cursor: "lastSequence (resume_awaiting s es) = lastSequence s"
proof (induction es arbitrary: s)
  case Nil
  then show ?case by simp
next
  case (Cons e es)
  then show ?case by (cases e) (simp_all add: unsubscribe_resume_def)
qed

lemma perform_keeps_cursor:
  "\<not> writes_cursor c \<Longrightarrow> lastSequence (fst (perform B s c)) = lastSequence s"
  by (cases c)
     (auto simp: op_defs resume_awaiting_cursor Let_def split: option.splits if_splits prod.splits)

lemma run_keeps_cursor:
  "list_all (\<lambda>c. \<not> writes_cursor c) cs \<Longrightarrow> lastSequence (run B s cs) = lastSequence s"
  by (induction cs arbitrary: s) (simp_all add: perform_keeps_cursor)

lemma perform_writes_cursor:
  "writes_cursor c \<Longrightarrow>
     lastSequence (fst (perform B s c)) =
       (case c of
          Ack json \<Rightarrow> getProp json ''sequence''
        | Subscribe conn startSequence doHandle \<Rightarrow> startSequence
        | _ \<Rightarrow> lastSequence s)"
  by (cases c) (auto simp: op_defs Let_def split: option.splits if_splits)

lemma resume_awaiting_none:
  "(\<And>p json. Resolve p json \<in> set es \<Longrightarrow> p \<notin> set (unsubscribing s)) \<Longrightarrow>
     resume_awaiting s es = s"
proof (induction es arbitrary: s)
  case Nil
  then show ?case by simp
next
  case (Cons e es)
  then show ?case by (cases e) auto
qed

subsection \<open>A run of \<^verbatim>\<open>init\<close>\<close>

text \<open>
  The passes of the loop change only \<open>isConnected\<close> and \<open>ws\<close>; a run that returns
  ends with \<open>init_connected\<close>. It returns as soon as one observation is \<^verbatim>\<open>OPEN\<close>.
\<close>

lemma init_Some:
  "init B obs s = Some (s', out) \<Longrightarrow>
     \<exists>s1. s' = fst (init_connected B s1) \<and> out = snd (init_connected B s1)
        \<and> listener s1 = listener s \<and> lastSequence s1 = lastSequence s
        \<and> reconnects s1 = reconnects s \<and> cMsgId s1 = cMsgId s \<and> clientId s1 = clientId s"
proof (induction obs arbitrary: s)
  case Nil
  then show ?case by simp
next
  case (Cons r rs)
  show ?case
  proof (cases "r = OPEN")
    case True
    with Cons.prems show ?thesis
      by (auto simp: init_poll_def Let_def intro!: exI[of _ "s\<lparr>isConnected := False\<rparr>"])
  next
    case False
    with Cons.prems Cons.IH[of "snd (init_poll r s)"] show ?thesis
      by (auto simp: init_poll_def Let_def split: if_splits)
  qed
qed

lemma init_returns: "OPEN \<in> set obs \<Longrightarrow> \<exists>r. init B obs s = Some r"
proof (induction obs arbitrary: s)
  case Nil
  then show ?case by simp
next
  case (Cons r rs)
  then show ?case by (cases "r = OPEN") (auto simp: init_poll_def Let_def)
qed

lemma init_counts_once:
  assumes "init B obs s = Some (s', out)"
  shows "reconnects s' = reconnects s + 1"
proof -
  from init_Some[OF assms] obtain s1 where
    "s' = fst (init_connected B s1)" "reconnects s1 = reconnects s"
    by blast
  then show ?thesis
    by (simp add: init_connected_def subscribe_def publish_def publish_send_def Let_def
        split: option.splits)
qed

lemma constructor_reconnects: "constructor obj rand = Inr s \<Longrightarrow> reconnects s = - 1"
  by (auto simp: constructor_def split: if_splits)

section \<open>The claims\<close>

subsection \<open>C1: the subscription cursor\<close>

text \<open>
  C1 (amended). The cursor \<^verbatim>\<open>lastSequence\<close> is written in two places only. Calling
  the acknowledgment closure of a delivered frame sets it to that frame's
  \<^verbatim>\<open>sequence\<close>, and calling the closure again leaves it there. \<^verbatim>\<open>subscribe\<close> sets
  it to \<^verbatim>\<open>startSequence\<close>. Every other step of a session (publishing, the other
  requests, \<^verbatim>\<open>unsubscribe\<close>, an inbound message, a pass of \<^verbatim>\<open>init\<close>, and the completion
  of \<^verbatim>\<open>init\<close> with its resubscription) leaves the cursor as it was. Neither write
  compares the new value with the old one.
\<close>

theorem cursor_updates:
  "lastSequence (fst (perform B s c)) =
     (case c of
        Ack json \<Rightarrow> getProp json ''sequence''
      | Subscribe conn startSequence doHandle \<Rightarrow> startSequence
      | _ \<Rightarrow> lastSequence s)
   \<and> lastSequence (fst (perform B (fst (perform B s (Ack json))) (Ack json)))
       = getProp json ''sequence''"
  by (cases c) (auto simp: op_defs Let_def split: option.splits if_splits)

text \<open>
  C1 as stated fails. A subscribed session is delivered sequence 5 and
  acknowledges it; it is then delivered sequence 3 (a redelivery, or a handler
  that finishes late) and acknowledges it: the cursor goes from 5 back to 3.
\<close>

theorem cursor_moves_backward:
  "lastSequence (run B0 s_sub
      [Message ''delivery5'', Ack (JObj [(''sequence'', JNum 5), (''payload'', JStr ''x'')])])
     = JNum 5
   \<and> snd (perform B0 (run B0 s_sub
      [Message ''delivery5'', Ack (JObj [(''sequence'', JNum 5), (''payload'', JStr ''x'')])])
      (Message ''delivery3''))
     = [Deliver ''handler'' (JObj [(''sequence'', JNum 3), (''payload'', JStr ''y'')])]
   \<and> lastSequence (run B0 s_sub
      [Message ''delivery5'', Ack (JObj [(''sequence'', JNum 5), (''payload'', JStr ''x'')]),
       Message ''delivery3'', Ack (JObj [(''sequence'', JNum 3), (''payload'', JStr ''y'')])])
     = JNum 3
   \<and> (3 :: rat) < 5"
  by (simp add: op_defs Let_def s_sub_eq s0_eq B0_def wire0_def)

subsection \<open>C2: responses\<close>

text \<open>
  C2 (amended). Let an inbound frame carry a truthy \<^verbatim>\<open>cMsgId\<close> and no truthy \<^verbatim>\<open>pub\<close>.
  If a pending entry is stored under that id, its \<^verbatim>\<open>resolveMe\<close> is called with the
  whole frame, that entry is deleted, and nothing else happens. If no entry is
  stored under that id, the step ends with a \<^verbatim>\<open>TypeError\<close>; the pending-request
  map is unchanged and nothing is sent.
\<close>

theorem response_resolution:
  assumes "JSON_parse B data = Some json"
    and "\<not> truthy (getProp json ''pub'')"
    and "truthy (getProp json ''cMsgId'')"
  shows "(waitingOperations s (ToPropertyKey B (getProp json ''cMsgId'')) = Some p \<longrightarrow>
            on_message B s data =
              (None,
               s\<lparr> waitingOperations :=
                    (waitingOperations s)(ToPropertyKey B (getProp json ''cMsgId'') := None) \<rparr>,
               [Resolve p json]))
       \<and> (waitingOperations s (ToPropertyKey B (getProp json ''cMsgId'')) = None \<longrightarrow>
            on_message B s data = (Some TypeError, s, []))"
proof -
  have "json \<noteq> JNull \<and> json \<noteq> JUndefined" using assms(3) by auto
  then show ?thesis using assms by (simp add: on_message_def Let_def)
qed

theorem response_resolution_witness:
  "on_message B0 s_pub ''response'' =
      (None, s_pub\<lparr> waitingOperations := (waitingOperations s_pub)(''1.5'' := None) \<rparr>,
       [Resolve (Pending (JStr ''hello'') (3 / 2) (1 / 2))
                (JObj [(''cMsgId'', JNum (3 / 2)), (''ok'', JBool True)])])
   \<and> on_message B0 s_open ''response'' = (Some TypeError, s_open, [])"
proof -
  let ?f = "JObj [(''cMsgId'', JNum (3 / 2)), (''ok'', JBool True)]"
  let ?p = "Pending (JStr ''hello'') (3 / 2) (1 / 2)"
  have 1: "JSON_parse B0 ''response'' = Some ?f" by (simp add: B0_def wire0_def)
  have 2: "\<not> truthy (getProp ?f ''pub'')" by simp
  have 3: "truthy (getProp ?f ''cMsgId'')" by simp
  have k: "ToPropertyKey B0 (getProp ?f ''cMsgId'') = ''1.5''" by (simp add: B0_def keys0_def)
  have a: "waitingOperations s_pub ''1.5'' = Some ?p" by (simp add: s_pub_eq)
  have b: "waitingOperations s_open ''1.5'' = None" by (simp add: s_open_eq s0_eq)
  show ?thesis
    using response_resolution[OF 1 2 3, of s_pub ?p]
          response_resolution[OF 1 2 3, of s_open ?p] a b
    by (simp only: k)
qed

text \<open>
  C2 as stated fails. The response to the one outstanding request arrives twice.
  The first copy resolves and removes the entry; at the second copy no entry is
  stored under the id, and the step ends with a \<^verbatim>\<open>TypeError\<close> instead of dropping
  the frame.
\<close>

theorem response_without_entry_raises:
  "fst (on_message B0 (fst (snd (on_message B0 s_pub ''response''))) ''response'')
     = Some TypeError"
  by (simp add: on_message_def Let_def s_pub_eq s0_eq B0_def wire0_def keys0_def)

subsection \<open>C3: payloads that are not JSON\<close>

text \<open>
  C3 (amended). When \<^verbatim>\<open>JSON.parse\<close> rejects the payload of an inbound message, the
  message-handling step ends with that \<^verbatim>\<open>SyntaxError\<close>: the listener has no
  \<^verbatim>\<open>try\<close>, so the error leaves it as the rejection of its promise. The session is
  unchanged, nothing is sent, no handler and no pending request is called.
\<close>

theorem malformed_payload:
  assumes "JSON_parse B data = None"
  shows "on_message B s data = (Some SyntaxError, s, [])"
  using assms by (simp add: on_message_def)

theorem malformed_payload_witness:
  "on_message B0 s_sub ''not json'' = (Some SyntaxError, s_sub, [])"
proof -
  have "JSON_parse B0 ''not json'' = None" by (simp add: B0_def wire0_def)
  then show ?thesis by (rule malformed_payload)
qed

text \<open>
  C3 as stated fails: on the payload \<^verbatim>\<open>{\<close> the step does not end normally, an
  error escapes the message listener.
\<close>

theorem malformed_payload_raises:
  "fst (on_message B0 s_open ''{'') = Some SyntaxError \<and> fst (on_message B0 s_open ''{'') \<noteq> None"
  by (simp add: on_message_def B0_def wire0_def)

subsection \<open>C4: publishing while disconnected\<close>

text \<open>
  C4 (amended). Let \<^verbatim>\<open>this.isConnected\<close> be false at each of the first 20 reads of
  \<^verbatim>\<open>canSend\<close>. Then \<^verbatim>\<open>publish\<close>, \<^verbatim>\<open>info\<close>, \<^verbatim>\<open>getState\<close> and \<^verbatim>\<open>putState\<close> return the value
  \<^verbatim>\<open>{error: 'Could not send message'}\<close>; \<^verbatim>\<open>deleteMessages\<close>, \<^verbatim>\<open>unsubscribe\<close> and
  \<^verbatim>\<open>subscribe\<close> do not pass that value on and return \<^verbatim>\<open>undefined\<close>. None of the
  seven raises, sends a frame or registers a pending entry: the pending-request
  map and the request counter are unchanged (\<^verbatim>\<open>unsubscribe\<close> and \<^verbatim>\<open>subscribe\<close> still
  write the listener holder, \<^verbatim>\<open>subscribe\<close> the cursor).
\<close>

theorem disconnected_publish:
  assumes "\<And>k. k < 20 \<Longrightarrow> \<not> conn k"
  shows "publish B conn s msg = (Returned soft_error, s, [])
       \<and> info B conn s = (Returned soft_error, s, [])
       \<and> getState B conn s = (Returned soft_error, s, [])
       \<and> putState B conn s state = (Returned soft_error, s, [])
       \<and> deleteMessages B conn s sequence = (Returned JUndefined, s, [])
       \<and> unsubscribe B conn s = (Returned JUndefined, s\<lparr> listener := None \<rparr>, [])
       \<and> subscribe B conn s startSequence doHandle =
           (Returned JUndefined, s\<lparr> lastSequence := startSequence, listener := Some doHandle \<rparr>, [])"
proof -
  have "\<not> canSend conn" using assms by (auto simp: canSend_iff)
  then have p: "publish B conn s m = (Returned soft_error, s, [])" for m
    by (simp add: publish_def)
  show ?thesis
    by (simp add: p info_def getState_def putState_def deleteMessages_def unsubscribe_def
        subscribe_def unsubscribe_resume_def)
qed

text \<open>
  An instance: the session is connected from the 21st read on. \<^verbatim>\<open>tries\<close> is then 20,
  and \<^verbatim>\<open>tries < 20\<close> is false.
\<close>

theorem disconnected_publish_witness:
  "publish B0 (\<lambda>k. 20 \<le> k) s0 (JStr ''hello'') = (Returned soft_error, s0, [])
   \<and> unsubscribe B0 (\<lambda>k. 20 \<le> k) s0 = (Returned JUndefined, s0\<lparr> listener := None \<rparr>, [])"
proof -
  have "\<And>k. k < 20 \<Longrightarrow> \<not> 20 \<le> (k::nat)" by simp
  from disconnected_publish[of "\<lambda>k. 20 \<le> k" B0 s0 "JStr ''hello''", OF this]
  show ?thesis by simp
qed

text \<open>
  C4 as stated fails for an operation derived from \<^verbatim>\<open>publish\<close>: \<^verbatim>\<open>deleteMessages\<close> on a
  session that stays disconnected returns \<^verbatim>\<open>undefined\<close>, not the soft error value.
\<close>

theorem soft_error_not_returned:
  "fst (deleteMessages B0 (\<lambda>k. False) s0 (JNum 3)) = Returned JUndefined
   \<and> fst (deleteMessages B0 (\<lambda>k. False) s0 (JNum 3)) \<noteq> Returned soft_error"
  by (simp add: deleteMessages_def publish_def canSend_never soft_error_def)

subsection \<open>C5: the order of the message router\<close>

text \<open>
  C5 (amended). A tag counts as present when its value is truthy, and the tags are
  tried in the order \<^verbatim>\<open>pub\<close>, \<^verbatim>\<open>cMsgId\<close>, \<^verbatim>\<open>sMsgId\<close>.
  \<^item> \<^verbatim>\<open>pub\<close>: when a handler is registered, it is called with the frame without its
    \<^verbatim>\<open>pub\<close> property and an acknowledgment closure bound to that frame; the
    session is unchanged.
  \<^item> otherwise \<^verbatim>\<open>cMsgId\<close>: when an entry is registered under that id, it is
    resolved with the frame and removed.
  \<^item> otherwise \<^verbatim>\<open>sMsgId\<close>: the frame is sent back as parsed.
  \<^item> otherwise, for any parsed value but \<^verbatim>\<open>null\<close>: nothing is sent and the session
    is unchanged.
\<close>

theorem router_priority:
  assumes "JSON_parse B data = Some json"
  shows "(truthy (getProp json ''pub'') \<longrightarrow> listener s = Some h \<longrightarrow>
            on_message B s data = (None, s, [Deliver h (deleteProp json ''pub'')])
            \<and> getProp (deleteProp json ''pub'') ''pub'' = JUndefined)
       \<and> (\<not> truthy (getProp json ''pub'') \<longrightarrow> truthy (getProp json ''cMsgId'') \<longrightarrow>
            waitingOperations s (ToPropertyKey B (getProp json ''cMsgId'')) = Some p \<longrightarrow>
            on_message B s data =
              (None,
               s\<lparr> waitingOperations :=
                    (waitingOperations s)(ToPropertyKey B (getProp json ''cMsgId'') := None) \<rparr>,
               [Resolve p json]))
       \<and> (\<not> truthy (getProp json ''pub'') \<longrightarrow> \<not> truthy (getProp json ''cMsgId'') \<longrightarrow>
            truthy (getProp json ''sMsgId'') \<longrightarrow>
            on_message B s data = (None, s, [Send (ws s) (JSON_stringify B json)]))
       \<and> (json \<noteq> JNull \<longrightarrow> json \<noteq> JUndefined \<longrightarrow>
            \<not> truthy (getProp json ''pub'') \<longrightarrow> \<not> truthy (getProp json ''cMsgId'') \<longrightarrow>
            \<not> truthy (getProp json ''sMsgId'') \<longrightarrow>
            on_message B s data = (None, s, []))"
proof -
  have del: "getProp (deleteProp json ''pub'') ''pub'' = JUndefined"
  proof (cases json)
    case (JObj kvs)
    have "map_of (filter (\<lambda>kv. fst kv \<noteq> ''pub'') kvs) ''pub'' = None"
      by (induction kvs) auto
    then show ?thesis using JObj by simp
  qed simp_all
  have a: "truthy (getProp json k) \<Longrightarrow> json \<noteq> JNull \<and> json \<noteq> JUndefined" for k
    by auto
  show ?thesis
    using assms del a[of "''pub''"] a[of "''cMsgId''"] a[of "''sMsgId''"]
    by (auto simp: on_message_def Let_def)
qed

theorem router_priority_witness:
  "on_message B0 s_sub ''delivery5'' =
      (None, s_sub, [Deliver ''handler'' (JObj [(''sequence'', JNum 5), (''payload'', JStr ''x'')])])
   \<and> on_message B0 s_pub ''response'' =
      (None, s_pub\<lparr> waitingOperations := (waitingOperations s_pub)(''1.5'' := None) \<rparr>,
       [Resolve (Pending (JStr ''hello'') (3 / 2) (1 / 2))
                (JObj [(''cMsgId'', JNum (3 / 2)), (''ok'', JBool True)])])
   \<and> on_message B0 s_pub ''request'' = (None, s_pub, [Send 0 ''frame''])
   \<and> on_message B0 s_pub ''other'' = (None, s_pub, [])"
proof -
  let ?d = "JObj [(''pub'', JBool True), (''sequence'', JNum 5), (''payload'', JStr ''x'')]"
  let ?r = "JObj [(''cMsgId'', JNum (3 / 2)), (''ok'', JBool True)]"
  let ?q = "JObj [(''sMsgId'', JNum 1)]"
  let ?o = "JObj [(''hello'', JNum 1)]"
  let ?p = "Pending (JStr ''hello'') (3 / 2) (1 / 2)"
  have 1: "JSON_parse B0 ''delivery5'' = Some ?d" by (simp add: B0_def wire0_def)
  have 2: "JSON_parse B0 ''response'' = Some ?r" by (simp add: B0_def wire0_def)
  have 3: "JSON_parse B0 ''request'' = Some ?q" by (simp add: B0_def wire0_def)
  have 4: "JSON_parse B0 ''other'' = Some ?o" by (simp add: B0_def wire0_def)
  have k: "ToPropertyKey B0 (JNum (3 / 2)) = ''1.5''" by (simp add: B0_def keys0_def)
  have e: "waitingOperations s_pub ''1.5'' = Some ?p" by (simp add: s_pub_eq)
  have l: "listener s_sub = Some ''handler''" by (simp add: s_sub_eq)
  have w: "ws s_pub = 0" by (simp add: s_pub_eq s0_eq)
  have j: "JSON_stringify B0 ?q = ''frame''" by (simp add: B0_def)
  show ?thesis
    using router_priority[OF 1, of s_sub "''handler''" ?p]
          router_priority[OF 2, of s_pub "''handler''" ?p]
          router_priority[OF 3, of s_pub "''handler''" ?p]
          router_priority[OF 4, of s_pub "''handler''" ?p]
          k e l w j
    by simp
qed

text \<open>
  C5 as stated fails. A connected session without a subscription receives a frame
  with the \<^verbatim>\<open>pub\<close> tag: the frame is passed to no handler, the step ends with a
  \<^verbatim>\<open>TypeError\<close>.
\<close>

theorem delivery_without_handler:
  "on_message B0 s_open ''delivery5'' = (Some TypeError, s_open, [])"
  by (simp add: on_message_def s_open_eq s0_eq B0_def wire0_def)

subsection \<open>C6: the reconnect counter\<close>

text \<open>
  C6. The counter starts at \<open>-1\<close> and every completed call of \<^verbatim>\<open>init\<close> adds one
  (\<open>constructor_reconnects\<close>, \<open>init_counts_once\<close>). But a call of \<^verbatim>\<open>init\<close> is started
  by every \<^verbatim>\<open>closeHandler\<close>, and one is added to the \<^verbatim>\<open>close\<close> event and one to the
  \<^verbatim>\<open>error\<close> event of the socket. The evaluation: the application calls \<^verbatim>\<open>init\<close>,
  socket 0 opens, and the counter is 0. Socket 0 fails, the runtime dispatches
  \<^verbatim>\<open>error\<close> and then \<^verbatim>\<open>close\<close> on it, and two calls of \<^verbatim>\<open>init\<close> run side by side. The
  first replaces the socket, socket 1 opens, both calls see it open and both count
  it: after one re-establishment (the current socket is socket 1) the counter is
  2. With the \<^verbatim>\<open>close\<close> event alone it is 1.
\<close>

theorem reconnects_counted_twice:
  "reconnects (client (play B (world0 s0)
      [CallInit, Transport 0 OPEN, Timer 0, Timer 0])) = 0
   \<and> reconnects (client (play B (world0 s0)
      [CallInit, Transport 0 OPEN, Timer 0, Timer 0,
       Transport 0 CLOSED, ErrorEvent 0, CloseEvent 0,
       Transport 1 OPEN, Timer 0, Timer 1, Timer 0, Timer 0])) = 2
   \<and> ws (client (play B (world0 s0)
      [CallInit, Transport 0 OPEN, Timer 0, Timer 0,
       Transport 0 CLOSED, ErrorEvent 0, CloseEvent 0,
       Transport 1 OPEN, Timer 0, Timer 1, Timer 0, Timer 0])) = 1
   \<and> reconnects (client (play B (world0 s0)
      [CallInit, Transport 0 OPEN, Timer 0, Timer 0,
       Transport 0 CLOSED, CloseEvent 0,
       Transport 1 OPEN, Timer 0, Timer 0])) = 1"
  by (simp add: world_defs op_defs s0_eq Let_def)

subsection \<open>C7: resubscription after a reconnect\<close>

text \<open>
  C7 (amended). Let \<open>c\<close> be the last step of a session that wrote the cursor (an
  acknowledgment or a call of \<^verbatim>\<open>subscribe\<close>), followed by steps \<open>cs\<close> that do not, and
  let a handler be stored in the session \<open>t\<close> reached. Let \<open>r\<close> be the outcome of the
  completion of \<^verbatim>\<open>init\<close> (the code after the 1000 ms delay) at \<open>t\<close>, or of a whole
  run of \<^verbatim>\<open>init\<close> from \<open>t\<close> that returns. Then a \<^verbatim>\<open>subscribe\<close> request has been sent
  on the current socket, registered under a new request id, whose \<^verbatim>\<open>startSequence\<close>
  is the cursor: the sequence of the message acknowledged by \<open>c\<close>, or the
  \<^verbatim>\<open>startSequence\<close> of \<open>c\<close> when \<open>c\<close> is a \<^verbatim>\<open>subscribe\<close>. The same handler is stored
  afterwards and the cursor is unchanged. So the resumed request carries the
  sequence acknowledged most recently, whether or not a higher sequence was
  acknowledged before it.
\<close>

theorem resubscribe_on_reconnect:
  assumes "writes_cursor c"
    and "list_all (\<lambda>d. \<not> writes_cursor d) cs"
    and "t = run B (fst (perform B s c)) cs"
    and "listener t = Some h"
    and "r = init_connected B t \<or> init B obs t = Some r"
  shows "lastSequence t =
           (case c of
              Ack json \<Rightarrow> getProp json ''sequence''
            | Subscribe conn startSequence doHandle \<Rightarrow> startSequence
            | _ \<Rightarrow> lastSequence s)
       \<and> Send (ws (fst r)) (JSON_stringify B
           (JObj [(''data'', JObj [(''cmd'', JStr ''subscribe''), (''startSequence'', lastSequence t)]),
                  (''cMsgId'', JNum (cMsgId (fst r))),
                  (''clientId'', JNum (clientId (fst r)))])) \<in> set (snd r)
       \<and> listener (fst r) = Some h
       \<and> lastSequence (fst r) = lastSequence t
       \<and> waitingOperations (fst r) (ToPropertyKey B (JNum (cMsgId (fst r)))) =
           Some (Pending (JObj [(''cmd'', JStr ''subscribe''), (''startSequence'', lastSequence t)])
                   (cMsgId (fst r)) (clientId (fst r)))"
proof -
  have cur: "lastSequence t =
           (case c of
              Ack json \<Rightarrow> getProp json ''sequence''
            | Subscribe conn startSequence doHandle \<Rightarrow> startSequence
            | _ \<Rightarrow> lastSequence s)"
    unfolding assms(3) run_keeps_cursor[OF assms(2)] using assms(1)
    by (rule perform_writes_cursor)
  have "\<exists>s1. r = init_connected B s1 \<and> listener s1 = listener t \<and> lastSequence s1 = lastSequence t"
  proof (cases "r = init_connected B t")
    case True
    then show ?thesis by blast
  next
    case False
    with assms(5) have "init B obs t = Some (fst r, snd r)" by simp
    from init_Some[OF this] show ?thesis by (metis prod.collapse)
  qed
  then obtain s1 where
    s1: "r = init_connected B s1" "listener s1 = listener t" "lastSequence s1 = lastSequence t"
    by blast
  have cs: "canSend (\<lambda>k. True)" by (simp add: canSend_connected)
  have "Send (ws (fst r)) (JSON_stringify B
           (JObj [(''data'', JObj [(''cmd'', JStr ''subscribe''), (''startSequence'', lastSequence t)]),
                  (''cMsgId'', JNum (cMsgId (fst r))),
                  (''clientId'', JNum (clientId (fst r)))])) \<in> set (snd r)
       \<and> listener (fst r) = Some h
       \<and> lastSequence (fst r) = lastSequence t
       \<and> waitingOperations (fst r) (ToPropertyKey B (JNum (cMsgId (fst r)))) =
           Some (Pending (JObj [(''cmd'', JStr ''subscribe''), (''startSequence'', lastSequence t)])
                   (cMsgId (fst r)) (clientId (fst r)))"
    using s1 assms(4) cs
    by (simp add: init_connected_def subscribe_def publish_def publish_send_def
        setupListeners_def Let_def)
  with cur show ?thesis by (rule conjI)
qed

text \<open>
  An instance: the subscribed session acknowledges sequence 5, receives an
  unrelated frame and reconnects on a new socket; it asks for \<^verbatim>\<open>startSequence\<close> 5.
\<close>

theorem resubscribe_on_reconnect_witness:
  "lastSequence (run B0 (fst (perform B0 s_sub
       (Ack (JObj [(''sequence'', JNum 5), (''payload'', JStr ''x'')])))) [Message ''other''])
     = JNum 5
   \<and> init B0 [CLOSED, CONNECTING, OPEN]
        (run B0 (fst (perform B0 s_sub
           (Ack (JObj [(''sequence'', JNum 5), (''payload'', JStr ''x'')])))) [Message ''other'']) =
      Some (s_sub\<lparr> lastSequence := JNum 5, ws := 1, reconnects := 1, cMsgId := 5 / 2,
                   waitingOperations := (waitingOperations s_sub)
                     (''2.5'' \<mapsto> Pending (JObj [(''cmd'', JStr ''subscribe''), (''startSequence'', JNum 5)])
                                (5 / 2) (1 / 2)) \<rparr>,
            [Listen 1, Send 1 ''frame''])
   \<and> Send 1 (JSON_stringify B0
        (JObj [(''data'', JObj [(''cmd'', JStr ''subscribe''), (''startSequence'', JNum 5)]),
               (''cMsgId'', JNum (5 / 2)), (''clientId'', JNum (1 / 2))]))
       \<in> set [Listen 1, Send 1 ''frame'' :: string effect]
   \<and> listener (fst (init_connected B0 s_sub)) = Some ''handler''
   \<and> lastSequence (fst (init_connected B0 s_sub)) = JNum 0"
proof -
  let ?f = "JObj [(''sequence'', JNum 5), (''payload'', JStr ''x'')]"
  let ?t = "run B0 (fst (perform B0 s_sub (Ack ?f))) [Message ''other'']"
  let ?s' = "s_sub\<lparr> lastSequence := JNum 5, ws := 1, reconnects := 1, cMsgId := 5 / 2,
                   waitingOperations := (waitingOperations s_sub)
                     (''2.5'' \<mapsto> Pending (JObj [(''cmd'', JStr ''subscribe''), (''startSequence'', JNum 5)])
                                (5 / 2) (1 / 2)) \<rparr>"
  have t: "?t = s_sub\<lparr> lastSequence := JNum 5 \<rparr>"
    by (simp add: ack_def on_message_def B0_def wire0_def)
  have w: "writes_cursor (Ack ?f :: string call)" by simp
  have n: "list_all (\<lambda>d. \<not> writes_cursor d) [Message ''other'' :: string call]" by simp
  have 1: "listener ?t = Some ''handler''" unfolding t by (simp add: s_sub_eq)
  have 2: "init B0 [CLOSED, CONNECTING, OPEN] ?t = Some (?s', [Listen 1, Send 1 ''frame''])"
    unfolding t
    by (simp add: op_defs Let_def s_sub_eq s0_eq canSend_connected incr_three_halves B0_def
        keys0_def)
  have 3: "lastSequence ?t = JNum 5" unfolding t by simp
  have 4: "ws ?s' = 1" "cMsgId ?s' = 5 / 2" "clientId ?s' = 1 / 2"
    by (simp_all add: s_sub_eq s0_eq)
  have 6: "listener s_sub = Some ''handler''" "lastSequence s_sub = JNum 0"
    by (simp_all add: s_sub_eq s0_eq)
  have s: "s_sub = run B0 (fst (perform B0 s_open (Subscribe (\<lambda>k. True) (JNum 0) ''handler''))) []"
    by (simp add: s_sub_def)
  have w2: "writes_cursor (Subscribe (\<lambda>k. True) (JNum 0) ''handler'')" by simp
  have n2: "list_all (\<lambda>d. \<not> writes_cursor d) ([] :: string call list)" by simp
  note whole = resubscribe_on_reconnect[OF w n refl 1 disjI2, OF 2]
  note step = resubscribe_on_reconnect[OF w2 n2 s 6(1) disjI1, OF refl]
  have A: "Send 1 (JSON_stringify B0
        (JObj [(''data'', JObj [(''cmd'', JStr ''subscribe''), (''startSequence'', JNum 5)]),
               (''cMsgId'', JNum (5 / 2)), (''clientId'', JNum (1 / 2))]))
       \<in> set [Listen 1, Send 1 ''frame'' :: string effect]"
    using whole[THEN conjunct2, THEN conjunct1] by (simp only: fst_conv snd_conv 3 4)
  have B: "listener (fst (init_connected B0 s_sub)) = Some ''handler''"
    using step[THEN conjunct2, THEN conjunct2, THEN conjunct1] .
  have C: "lastSequence (fst (init_connected B0 s_sub)) = JNum 0"
    using step[THEN conjunct2, THEN conjunct2, THEN conjunct2, THEN conjunct1]
    by (simp only: 6(2))
  show ?thesis using 2 3 A B C by blast
qed

text \<open>
  C7 as stated fails. The subscribed session acknowledges sequence 5 and then
  sequence 3 (a redelivery, or a handler that finishes late). After the reconnect
  the resumed request carries \<^verbatim>\<open>startSequence\<close> 3, less than the 5 acknowledged.
\<close>

theorem resubscribe_below_acknowledged:
  "lastSequence (run B0 s_sub
      [Message ''delivery5'', Ack (JObj [(''sequence'', JNum 5), (''payload'', JStr ''x'')])])
     = JNum 5
   \<and> init B0 [CLOSED, CONNECTING, OPEN]
        (run B0 s_sub
           [Message ''delivery5'', Ack (JObj [(''sequence'', JNum 5), (''payload'', JStr ''x'')]),
            Message ''delivery3'', Ack (JObj [(''sequence'', JNum 3), (''payload'', JStr ''y'')])]) =
      Some (s_sub\<lparr> lastSequence := JNum 3, ws := 1, reconnects := 1, cMsgId := 5 / 2,
                   waitingOperations := (waitingOperations s_sub)
                     (''2.5'' \<mapsto> Pending (JObj [(''cmd'', JStr ''subscribe''), (''startSequence'', JNum 3)])
                                (5 / 2) (1 / 2)) \<rparr>,
            [Listen 1, Send 1 (JSON_stringify B0
               (JObj [(''data'', JObj [(''cmd'', JStr ''subscribe''), (''startSequence'', JNum 3)]),
                      (''cMsgId'', JNum (5 / 2)), (''clientId'', JNum (1 / 2))]))])
   \<and> (3 :: rat) < 5"
  by (simp add: op_defs Let_def s_sub_eq s0_eq canSend_connected incr_three_halves B0_def
      wire0_def keys0_def)

subsection \<open>C8: request ids\<close>

text \<open>
  C8 (amended). The request counter starts at the value of \<^verbatim>\<open>Math.random()\<close>, which
  need not be an integer, and a step that registers a new pending entry gives it
  the counter incremented by one (in binary64 arithmetic) as its id; the ids need
  not be integers either. For two steps of a session that each register a new
  pending entry, the second step coming after the first in a run, the id of the
  later entry is strictly greater than the id of the earlier one, as long as the
  counter stays below \<open>2 ^ 53\<close>.
\<close>

theorem request_ids_increase:
  assumes "0 \<le> cMsgId s"
    and "waitingOperations (fst (perform B s c1)) k1 = Some p1"
    and "waitingOperations s k1 \<noteq> Some p1"
    and "t = run B (fst (perform B s c1)) cs"
    and "waitingOperations (fst (perform B t c2)) k2 = Some p2"
    and "waitingOperations t k2 \<noteq> Some p2"
    and "cMsgId (fst (perform B t c2)) < 2 ^ 53"
  shows "op_cMsgId p1 = incr (cMsgId s)
       \<and> op_cMsgId p2 = incr (cMsgId t)
       \<and> op_cMsgId p1 < op_cMsgId p2
       \<and> (constructor obj rand = Inr c \<longrightarrow> cMsgId c = rand)"
proof -
  let ?s1 = "fst (perform B s c1)"
  from perform_registers[OF assms(2,3)]
  have r1: "op_cMsgId p1 = cMsgId ?s1" by simp
  from perform_registers[OF assms(5,6)]
  have r2: "op_cMsgId p2 = incr (cMsgId t)" "cMsgId (fst (perform B t c2)) = incr (cMsgId t)"
    by auto
  have nn1: "0 \<le> cMsgId ?s1" using assms(1) by (rule perform_counter_nonneg)
  then have nnt: "0 \<le> cMsgId t" unfolding assms(4) by (rule run_counter_nonneg)
  have lt: "cMsgId t < incr (cMsgId t)" using nnt assms(7) r2(2) by (intro incr_less) simp_all
  then have "cMsgId t < 2 ^ 53" using assms(7) r2(2) by simp
  then have "cMsgId ?s1 \<le> cMsgId t" using run_counter_mono[OF nn1, of B cs] assms(4) by simp
  then have "op_cMsgId p1 < op_cMsgId p2" using r1 r2(1) lt by simp
  moreover have "constructor obj rand = Inr c \<longrightarrow> cMsgId c = rand"
    by (auto simp: constructor_def split: if_splits)
  ultimately show ?thesis using perform_registers[OF assms(2,3)] r2(1) by simp
qed

text \<open>
  An instance: a connected session publishes, receives the response and publishes
  again; the ids are 1.5 and 2.5.
\<close>

theorem request_ids_increase_witness:
  "waitingOperations s_pub ''1.5'' = Some (Pending (JStr ''hello'') (3 / 2) (1 / 2))
   \<and> waitingOperations
        (fst (perform B0 (run B0 s_pub [Message ''response''])
           (Publish (\<lambda>k. True) (JStr ''again'')))) ''2.5''
      = Some (Pending (JStr ''again'') (5 / 2) (1 / 2))
   \<and> op_cMsgId (Pending (JStr ''hello'') (3 / 2) (1 / 2))
       < op_cMsgId (Pending (JStr ''again'') (5 / 2) (1 / 2))
   \<and> constructor cfg0 (1 / 2) = Inr s0
   \<and> cMsgId s0 = 1 / 2"
proof -
  let ?c1 = "Publish (\<lambda>k. True) (JStr ''hello'') :: string call"
  let ?c2 = "Publish (\<lambda>k. True) (JStr ''again'') :: string call"
  let ?p1 = "Pending (JStr ''hello'') (3 / 2) (1 / 2)"
  let ?p2 = "Pending (JStr ''again'') (5 / 2) (1 / 2)"
  let ?t = "s_pub\<lparr> waitingOperations := Map.empty \<rparr>"
  have s1: "fst (perform B0 s_open ?c1) = s_pub" by (simp add: s_pub_def)
  have t: "run B0 s_pub [Message ''response''] = ?t"
    by (simp add: on_message_def Let_def s_pub_eq s0_eq B0_def wire0_def keys0_def)
  have 1: "0 \<le> cMsgId s_open" by (simp add: s_open_eq s0_eq)
  have 2: "waitingOperations (fst (perform B0 s_open ?c1)) ''1.5'' = Some ?p1"
    unfolding s1 by (simp add: s_pub_eq)
  have 3: "waitingOperations s_open ''1.5'' \<noteq> Some ?p1" by (simp add: s_open_eq s0_eq)
  have 4: "?t = run B0 (fst (perform B0 s_open ?c1)) [Message ''response'']"
    unfolding s1 t ..
  have 5: "waitingOperations (fst (perform B0 ?t ?c2)) ''2.5'' = Some ?p2"
    by (simp add: publish_def publish_send_def Let_def canSend_connected s_pub_eq s0_eq
        incr_three_halves B0_def keys0_def)
  have 6: "waitingOperations ?t ''2.5'' \<noteq> Some ?p2" by simp
  have 7: "cMsgId (fst (perform B0 ?t ?c2)) < 2 ^ 53"
    by (simp add: publish_def publish_send_def Let_def canSend_connected s_pub_eq s0_eq
        incr_three_halves)
  have a: "waitingOperations s_pub ''1.5'' = Some ?p1" by (simp add: s_pub_eq)
  have b: "constructor cfg0 (1 / 2) = Inr s0" by (simp add: s0_def constructor_def cfg0_def)
  note ids = request_ids_increase[OF 1 2 3 4 5 6 7, where obj = cfg0 and rand = "1 / 2" and c = s0]
  have c: "cMsgId s0 = 1 / 2"
    using ids[THEN conjunct2, THEN conjunct2, THEN conjunct2] b by (rule mp)
  have d: "op_cMsgId ?p1 < op_cMsgId ?p2" using ids[THEN conjunct2, THEN conjunct2, THEN conjunct1] .
  show ?thesis using a 5 b c d unfolding t by blast
qed

text \<open>
  C8 as stated fails: the first request of a session whose seed is 0.5 has the id
  1.5, which is not an integer.
\<close>

theorem request_id_not_integer:
  "waitingOperations (fst (perform B0 s_open (Publish (\<lambda>k. True) (JStr ''hello'')))) ''1.5''
     = Some (Pending (JStr ''hello'') (3 / 2) (1 / 2))
   \<and> of_int \<lfloor>op_cMsgId (Pending (JStr ''hello'') (3 / 2) (1 / 2))\<rfloor>
       \<noteq> op_cMsgId (Pending (JStr ''hello'') (3 / 2) (1 / 2))"
proof -
  have "\<lfloor>3 / 2 :: rat\<rfloor> = 1" by (rule floor_unique) simp_all
  then show ?thesis
    by (simp add: op_defs Let_def s_open_eq s0_eq B0_def keys0_def canSend_connected incr_half)
qed

subsection \<open>C9: unsubscribe\<close>

text \<open>
  C9 (amended). \<^verbatim>\<open>unsubscribe\<close> never writes the cursor \<^verbatim>\<open>lastSequence\<close>, and
  neither does the step in which its response arrives.
  \<^item> When \<^verbatim>\<open>canSend\<close> succeeds, \<^verbatim>\<open>unsubscribe\<close> sends one \<^verbatim>\<open>unsubscribe\<close> request and
    registers it; the handler is still stored.
  \<^item> The handler is removed in the step in which the response to that request
    arrives: the message listener resolves the entry and the suspended
    \<^verbatim>\<open>unsubscribe\<close> then empties the listener holder. This holds right after
    \<^verbatim>\<open>unsubscribe\<close> and in every later session in which the entry is still pending.
  \<^item> Until then the handler stays: a step other than \<^verbatim>\<open>subscribe\<close> and
    \<^verbatim>\<open>unsubscribe\<close> that resolves no entry awaited by an \<^verbatim>\<open>unsubscribe\<close> leaves the
    listener holder as it was.
  \<^item> When \<^verbatim>\<open>canSend\<close> fails, \<^verbatim>\<open>unsubscribe\<close> sends nothing, and the listener holder
    is emptied when \<^verbatim>\<open>canSend\<close> returns, at the end of the bounded wait.
\<close>

theorem unsubscribe_frame:
  "lastSequence (fst (snd (unsubscribe B conn s))) = lastSequence s
   \<and> lastSequence (fst (perform B t (Message data))) = lastSequence t
   \<and> (canSend conn \<longrightarrow>
        unsubscribe B conn s =
          (AwaitVoid (ToPropertyKey B (JNum (incr (cMsgId s)))),
           s\<lparr> cMsgId := incr (cMsgId s),
              waitingOperations := (waitingOperations s)
                (ToPropertyKey B (JNum (incr (cMsgId s))) \<mapsto>
                   Pending (JObj [(''cmd'', JStr ''unsubscribe'')]) (incr (cMsgId s)) (clientId s)),
              unsubscribing :=
                Pending (JObj [(''cmd'', JStr ''unsubscribe'')]) (incr (cMsgId s)) (clientId s)
                  # unsubscribing s \<rparr>,
           [Send (ws s) (JSON_stringify B
              (JObj [(''data'', JObj [(''cmd'', JStr ''unsubscribe'')]),
                     (''cMsgId'', JNum (incr (cMsgId s))),
                     (''clientId'', JNum (clientId s))]))]))
   \<and> (canSend conn \<longrightarrow> JSON_parse B data = Some json \<longrightarrow>
        \<not> truthy (getProp json ''pub'') \<longrightarrow> truthy (getProp json ''cMsgId'') \<longrightarrow>
        ToPropertyKey B (getProp json ''cMsgId'') = ToPropertyKey B (JNum (incr (cMsgId s))) \<longrightarrow>
          listener (run B s [Unsubscribe conn]) = listener s
        \<and> listener (run B s [Unsubscribe conn, Message data]) = None
        \<and> lastSequence (run B s [Unsubscribe conn, Message data]) = lastSequence s
        \<and> waitingOperations (run B s [Unsubscribe conn, Message data])
             (ToPropertyKey B (JNum (incr (cMsgId s)))) = None
        \<and> snd (perform B (run B s [Unsubscribe conn]) (Message data)) =
             [Resolve (Pending (JObj [(''cmd'', JStr ''unsubscribe'')]) (incr (cMsgId s)) (clientId s))
                json])
   \<and> (JSON_parse B data = Some json \<longrightarrow>
        \<not> truthy (getProp json ''pub'') \<longrightarrow> truthy (getProp json ''cMsgId'') \<longrightarrow>
        waitingOperations t (ToPropertyKey B (getProp json ''cMsgId'')) = Some q \<longrightarrow>
        q \<in> set (unsubscribing t) \<longrightarrow>
          listener (fst (perform B t (Message data))) = None
        \<and> snd (perform B t (Message data)) = [Resolve q json])
   \<and> ((\<forall>p f. Resolve p f \<in> set (snd (perform B t c)) \<longrightarrow> p \<notin> set (unsubscribing t)) \<longrightarrow>
        (case c of
           Subscribe cn startSequence doHandle \<Rightarrow> True
         | Unsubscribe cn \<Rightarrow> True
         | _ \<Rightarrow> listener (fst (perform B t c)) = listener t))
   \<and> (\<not> canSend conn \<longrightarrow>
        unsubscribe B conn s = (Returned JUndefined, s\<lparr> listener := None \<rparr>, []))"
proof -
  let ?c = "incr (cMsgId s)"
  let ?k = "ToPropertyKey B (JNum ?c)"
  let ?p = "Pending (JObj [(''cmd'', JStr ''unsubscribe'')]) ?c (clientId s)"
  have A: "lastSequence (fst (snd (unsubscribe B conn s))) = lastSequence s"
    by (simp add: unsubscribe_def publish_def publish_send_def unsubscribe_resume_def
        suspend_unsubscribe_def Let_def)
  have A2: "lastSequence (fst (perform B t (Message data))) = lastSequence t"
    by (rule perform_keeps_cursor) simp
  have B: "canSend conn \<longrightarrow>
        unsubscribe B conn s =
          (AwaitVoid ?k,
           s\<lparr> cMsgId := ?c, waitingOperations := (waitingOperations s)(?k \<mapsto> ?p),
              unsubscribing := ?p # unsubscribing s \<rparr>,
           [Send (ws s) (JSON_stringify B
              (JObj [(''data'', JObj [(''cmd'', JStr ''unsubscribe'')]),
                     (''cMsgId'', JNum ?c), (''clientId'', JNum (clientId s))]))])"
    by (simp add: unsubscribe_def publish_def publish_send_def suspend_unsubscribe_def Let_def)
  have D: "JSON_parse B data = Some json \<longrightarrow>
        \<not> truthy (getProp json ''pub'') \<longrightarrow> truthy (getProp json ''cMsgId'') \<longrightarrow>
        waitingOperations t (ToPropertyKey B (getProp json ''cMsgId'')) = Some q \<longrightarrow>
        q \<in> set (unsubscribing t) \<longrightarrow>
          listener (fst (perform B t (Message data))) = None
        \<and> snd (perform B t (Message data)) = [Resolve q json]"
  proof (intro impI)
    assume a: "JSON_parse B data = Some json" "\<not> truthy (getProp json ''pub'')"
       "truthy (getProp json ''cMsgId'')"
       "waitingOperations t (ToPropertyKey B (getProp json ''cMsgId'')) = Some q"
       "q \<in> set (unsubscribing t)"
    have "json \<noteq> JNull \<and> json \<noteq> JUndefined" using a(3) by auto
    then show "listener (fst (perform B t (Message data))) = None
        \<and> snd (perform B t (Message data)) = [Resolve q json]"
      using a by (simp add: on_message_def Let_def unsubscribe_resume_def)
  qed
  have C: "canSend conn \<longrightarrow> JSON_parse B data = Some json \<longrightarrow>
        \<not> truthy (getProp json ''pub'') \<longrightarrow> truthy (getProp json ''cMsgId'') \<longrightarrow>
        ToPropertyKey B (getProp json ''cMsgId'') = ?k \<longrightarrow>
          listener (run B s [Unsubscribe conn]) = listener s
        \<and> listener (run B s [Unsubscribe conn, Message data]) = None
        \<and> lastSequence (run B s [Unsubscribe conn, Message data]) = lastSequence s
        \<and> waitingOperations (run B s [Unsubscribe conn, Message data]) ?k = None
        \<and> snd (perform B (run B s [Unsubscribe conn]) (Message data)) = [Resolve ?p json]"
  proof (intro impI)
    assume a: "canSend conn" "JSON_parse B data = Some json" "\<not> truthy (getProp json ''pub'')"
       "truthy (getProp json ''cMsgId'')" "ToPropertyKey B (getProp json ''cMsgId'') = ?k"
    have "json \<noteq> JNull \<and> json \<noteq> JUndefined" using a(4) by auto
    then show "listener (run B s [Unsubscribe conn]) = listener s
        \<and> listener (run B s [Unsubscribe conn, Message data]) = None
        \<and> lastSequence (run B s [Unsubscribe conn, Message data]) = lastSequence s
        \<and> waitingOperations (run B s [Unsubscribe conn, Message data]) ?k = None
        \<and> snd (perform B (run B s [Unsubscribe conn]) (Message data)) = [Resolve ?p json]"
      using a B by (simp add: on_message_def Let_def unsubscribe_resume_def)
  qed
  have E: "(\<forall>p f. Resolve p f \<in> set (snd (perform B t c)) \<longrightarrow> p \<notin> set (unsubscribing t)) \<longrightarrow>
        (case c of
           Subscribe cn startSequence doHandle \<Rightarrow> True
         | Unsubscribe cn \<Rightarrow> True
         | _ \<Rightarrow> listener (fst (perform B t c)) = listener t)"
  proof (rule impI, cases c)
    assume h: "\<forall>p f. Resolve p f \<in> set (snd (perform B t c)) \<longrightarrow> p \<notin> set (unsubscribing t)"
    case (Message d)
    obtain e t1 out where o: "on_message B t d = (e, t1, out)" by (metis prod_cases3)
    have l: "listener t1 = listener t" "unsubscribing t1 = unsubscribing t"
      using o by (auto simp: on_message_def Let_def split: option.splits if_splits)
    have "resume_awaiting t1 out = t1"
      using h Message o l by (intro resume_awaiting_none) auto
    then show "case c of
           Subscribe cn startSequence doHandle \<Rightarrow> True
         | Unsubscribe cn \<Rightarrow> True
         | _ \<Rightarrow> listener (fst (perform B t c)) = listener t"
      using Message o l by simp
  qed (auto simp: op_defs Let_def split: option.splits if_splits)
  have F: "\<not> canSend conn \<longrightarrow>
        unsubscribe B conn s = (Returned JUndefined, s\<lparr> listener := None \<rparr>, [])"
    by (simp add: unsubscribe_def publish_def unsubscribe_resume_def)
  show ?thesis by (intro conjI A A2 B C D E F)
qed

text \<open>
  An instance: the subscribed session, with its \<^verbatim>\<open>subscribe\<close> request 1.5 still
  pending, calls \<^verbatim>\<open>unsubscribe\<close> (request 2.5). The response to request 1.5 leaves
  the handler stored; the response to request 2.5 removes it.
\<close>

theorem unsubscribe_frame_witness:
  "unsubscribe B0 (\<lambda>k. True) s_sub =
     (AwaitVoid ''2.5'',
      s_sub\<lparr> cMsgId := 5 / 2,
             waitingOperations := (waitingOperations s_sub)
               (''2.5'' \<mapsto> Pending (JObj [(''cmd'', JStr ''unsubscribe'')]) (5 / 2) (1 / 2)),
             unsubscribing := [Pending (JObj [(''cmd'', JStr ''unsubscribe'')]) (5 / 2) (1 / 2)] \<rparr>,
      [Send 0 ''frame''])
   \<and> listener (run B0 s_sub [Unsubscribe (\<lambda>k. True)]) = Some ''handler''
   \<and> listener (run B0 s_sub [Unsubscribe (\<lambda>k. True), Message ''response2'']) = None
   \<and> lastSequence (run B0 s_sub [Unsubscribe (\<lambda>k. True), Message ''response2'']) = JNum 0
   \<and> listener (fst (perform B0 (run B0 s_sub [Unsubscribe (\<lambda>k. True)]) (Message ''response'')))
       = Some ''handler''
   \<and> listener (fst (perform B0 (run B0 s_sub [Unsubscribe (\<lambda>k. True), Message ''response''])
        (Message ''response2''))) = None
   \<and> unsubscribe B0 (\<lambda>k. False) (s_sub\<lparr> isConnected := False \<rparr>) =
     (Returned JUndefined, s_sub\<lparr> isConnected := False, listener := None \<rparr>, [])"
proof -
  let ?p = "Pending (JObj [(''cmd'', JStr ''unsubscribe'')]) (5 / 2) (1 / 2)"
  let ?r1 = "JObj [(''cMsgId'', JNum (3 / 2)), (''ok'', JBool True)]"
  let ?r2 = "JObj [(''cMsgId'', JNum (5 / 2)), (''ok'', JBool True)]"
  let ?u = "run B0 s_sub [Unsubscribe (\<lambda>k. True)]"
  let ?v = "run B0 s_sub [Unsubscribe (\<lambda>k. True), Message ''response'']"
  have c: "canSend (\<lambda>k. True)" "\<not> canSend (\<lambda>k. False)"
    by (simp_all add: canSend_connected canSend_never)
  have i: "incr (cMsgId s_sub) = 5 / 2" "clientId s_sub = 1 / 2" "ws s_sub = 0"
          "lastSequence s_sub = JNum 0" "listener s_sub = Some ''handler''"
          "unsubscribing s_sub = []"
    by (simp_all add: s_sub_eq s0_eq incr_three_halves)
  have k: "ToPropertyKey B0 (JNum (5 / 2)) = ''2.5''" "ToPropertyKey B0 (JNum (3 / 2)) = ''1.5''"
    by (simp_all add: B0_def keys0_def)
  have j: "JSON_stringify B0 x = ''frame''" for x by (simp add: B0_def)
  have p1: "JSON_parse B0 ''response'' = Some ?r1" by (simp add: B0_def wire0_def)
  have p2: "JSON_parse B0 ''response2'' = Some ?r2" by (simp add: B0_def wire0_def)
  let ?U = "s_sub\<lparr> cMsgId := 5 / 2,
             waitingOperations := (waitingOperations s_sub)(''2.5'' \<mapsto> ?p),
             unsubscribing := [?p] \<rparr>"
  have t2: "\<not> truthy (getProp ?r2 ''pub'')" "truthy (getProp ?r2 ''cMsgId'')" by simp_all
  have k2: "ToPropertyKey B0 (getProp ?r2 ''cMsgId'') = ToPropertyKey B0 (JNum (incr (cMsgId s_sub)))"
    by (simp add: i)
  note on = unsubscribe_frame[of B0 "\<lambda>k. True" s_sub ?u "''response2''" ?r2 ?p
              "Message ''response''"]
  have u: "unsubscribe B0 (\<lambda>k. True) s_sub = (AwaitVoid ''2.5'', ?U, [Send 0 ''frame''])"
    using on[THEN conjunct2, THEN conjunct2, THEN conjunct1, rule_format, OF c(1)]
    by (simp only: i k j)
  have ueq: "?u = ?U" by (simp add: u)
  note direct = on[THEN conjunct2, THEN conjunct2, THEN conjunct2, THEN conjunct1, rule_format,
                   OF c(1) p2 t2 k2]
  have d1: "listener ?u = Some ''handler''"
    using direct[THEN conjunct1] by (simp only: i)
  have d2: "listener (run B0 s_sub [Unsubscribe (\<lambda>k. True), Message ''response2'']) = None"
    using direct[THEN conjunct2, THEN conjunct1] .
  have d3: "lastSequence (run B0 s_sub [Unsubscribe (\<lambda>k. True), Message ''response2'']) = JNum 0"
    using direct[THEN conjunct2, THEN conjunct2, THEN conjunct1] by (simp only: i)
  have nores: "\<forall>p f. Resolve p f \<in> set (snd (perform B0 ?u (Message ''response'')))
                 \<longrightarrow> p \<notin> set (unsubscribing ?u)"
    unfolding ueq by (simp add: on_message_def Let_def p1 k s_sub_eq)
  have keep: "listener (fst (perform B0 ?u (Message ''response''))) = Some ''handler''"
    using on[THEN conjunct2, THEN conjunct2, THEN conjunct2, THEN conjunct2, THEN conjunct2,
             THEN conjunct1, THEN mp, OF nores] d1
    by simp
  have vstep: "?v = fst (perform B0 ?u (Message ''response''))" by simp
  have veq: "?v = ?U\<lparr> waitingOperations := (waitingOperations ?U)(''1.5'' := None) \<rparr>"
    unfolding vstep ueq by (simp add: on_message_def Let_def p1 k s_sub_eq)
  have w: "waitingOperations ?v (ToPropertyKey B0 (getProp ?r2 ''cMsgId'')) = Some ?p"
    unfolding veq by (simp add: k)
  have m: "?p \<in> set (unsubscribing ?v)" unfolding veq by simp
  have later: "listener (fst (perform B0 ?v (Message ''response2''))) = None"
    using unsubscribe_frame[of B0 "\<lambda>k. True" s_sub ?v "''response2''" ?r2 ?p "Message ''other''",
            THEN conjunct2, THEN conjunct2, THEN conjunct2, THEN conjunct2, THEN conjunct1,
            rule_format, OF p2 t2 w m, THEN conjunct1] .
  have off: "unsubscribe B0 (\<lambda>k. False) (s_sub\<lparr> isConnected := False \<rparr>) =
     (Returned JUndefined, s_sub\<lparr> isConnected := False, listener := None \<rparr>, [])"
    using unsubscribe_frame[of B0 "\<lambda>k. False" "s_sub\<lparr> isConnected := False \<rparr>" s_sub
            "''response2''" ?r2 ?p "Message ''other''",
            THEN conjunct2, THEN conjunct2, THEN conjunct2, THEN conjunct2, THEN conjunct2,
            THEN conjunct2, rule_format, OF c(2)] .
  show ?thesis using u d1 d2 d3 keep later off by blast
qed

text \<open>
  C9 as stated fails: on a subscribed session that stays disconnected,
  \<^verbatim>\<open>unsubscribe\<close> sends no request.
\<close>

theorem unsubscribe_disconnected_sends_nothing:
  "snd (snd (unsubscribe B0 (\<lambda>k. False) (s_sub\<lparr> isConnected := False \<rparr>))) = []"
  by (simp add: unsubscribe_def publish_def canSend_never)

subsection \<open>C10: a delivery without a subscription\<close>

text \<open>
  C10. When a frame with a truthy \<^verbatim>\<open>pub\<close> arrives while the listener holder is
  empty, the message-handling step ends with a \<^verbatim>\<open>TypeError\<close> (the call of the
  absent \<^verbatim>\<open>doHandle\<close>): the frame is not ignored. Nothing is delivered or sent and the
  session is unchanged. The holder is empty in the session the constructor returns
  and after the continuation of \<^verbatim>\<open>unsubscribe\<close>.
\<close>

theorem pub_without_listener_fails:
  assumes "JSON_parse B data = Some json"
    and "truthy (getProp json ''pub'')"
    and "listener s = None"
    and "constructor obj rand = Inr c"
  shows "on_message B s data = (Some TypeError, s, [])
       \<and> on_message B c data = (Some TypeError, c, [])
       \<and> on_message B (unsubscribe_resume u) data = (Some TypeError, unsubscribe_resume u, [])"
proof -
  have nn: "json \<noteq> JNull" "json \<noteq> JUndefined" using assms(2) by auto
  have "listener c = None" using assms(4) by (auto simp: constructor_def split: if_splits)
  moreover have "listener (unsubscribe_resume u) = None" by (simp add: unsubscribe_resume_def)
  ultimately show ?thesis using assms(1,2,3) nn by (simp add: on_message_def)
qed

theorem pub_without_listener_fails_witness:
  "on_message B0 s_open ''delivery3'' = (Some TypeError, s_open, [])
   \<and> on_message B0 s0 ''delivery3'' = (Some TypeError, s0, [])
   \<and> on_message B0 (unsubscribe_resume s_sub) ''delivery3''
       = (Some TypeError, unsubscribe_resume s_sub, [])"
proof -
  let ?d = "JObj [(''pub'', JBool True), (''sequence'', JNum 3), (''payload'', JStr ''y'')]"
  have 1: "JSON_parse B0 ''delivery3'' = Some ?d" by (simp add: B0_def wire0_def)
  have 2: "truthy (getProp ?d ''pub'')" by simp
  have 3: "listener s_open = None" by (simp add: s_open_eq s0_eq)
  have 4: "constructor cfg0 (1 / 2) = Inr s0" by (simp add: s0_def constructor_def cfg0_def)
  show ?thesis by (rule pub_without_listener_fails[OF 1 2 3 4])
qed

end
